theory Spec2Isabelle
  imports Main
begin

section \<open>Python string primitives used by \<^verbatim>\<open>src/api/app.py\<close>\<close>

text \<open>
  Strings are lists of characters. The reply formatter only looks for the four ASCII
  delimiters \<^verbatim>\<open>[ ] ( )\<close> and copies everything else, so the positions it
  computes are positions in the list.

  \<^verbatim>\<open>str.find(c, start)\<close> returns the first index at or after \<^verbatim>\<open>start\<close> holding
  \<^verbatim>\<open>c\<close>, or \<^verbatim>\<open>-1\<close>; a slice \<^verbatim>\<open>s[i:j]\<close> clamps both bounds to the string and
  counts a negative bound from the end. Both are written out with \<open>int\<close> indices, since
  the code feeds the \<^verbatim>\<open>-1\<close> of a failed search back into a slice.
\<close>

fun index_of :: "char \<Rightarrow> string \<Rightarrow> nat option" where
  "index_of c [] = None"
| "index_of c (x # xs) = (if x = c then Some 0 else map_option Suc (index_of c xs))"

definition py_bound :: "int \<Rightarrow> nat \<Rightarrow> nat" where
  "py_bound i n = (if i < 0 then nat (max 0 (i + int n)) else min (nat i) n)"

definition py_find :: "string \<Rightarrow> char \<Rightarrow> int \<Rightarrow> int" where
  "py_find s c start =
     (let k = py_bound start (length s)
      in case index_of c (drop k s) of None \<Rightarrow> - 1 | Some i \<Rightarrow> int (k + i))"

definition py_slice :: "string \<Rightarrow> int \<Rightarrow> int \<Rightarrow> string" where
  "py_slice s i j =
     (let a = py_bound i (length s); b = py_bound j (length s)
      in take (b - a) (drop a s))"

definition py_slice_from :: "string \<Rightarrow> int \<Rightarrow> string" where
  "py_slice_from s i = drop (py_bound i (length s)) s"

section \<open>Reply formatter\<close>

text \<open>
  \<^verbatim>\<open>format_links\<close> (lines 101-113) is a \<^verbatim>\<open>while True\<close> loop with a single
  \<^verbatim>\<open>break\<close>. Nothing bounds the number of iterations, so the model is a partial
  function: \<open>None\<close> means that the loop never reaches the \<^verbatim>\<open>break\<close>.
\<close>

partial_function (option) format_links :: "string \<Rightarrow> string option" where
  "format_links formatted_text =
     (let start_idx = py_find formatted_text CHR ''['' 0;
          end_idx = py_find formatted_text CHR '')'' start_idx
      in if start_idx = - 1 \<or> end_idx = - 1 then Some formatted_text
         else
           let link_text = py_slice formatted_text (start_idx + 1)
                             (py_find formatted_text CHR '']'' start_idx);
               url = py_slice formatted_text
                       (py_find formatted_text CHR ''('' start_idx + 1) end_idx;
               slack_link = ''<'' @ url @ ''|'' @ link_text @ ''>''
           in format_links
                (py_slice formatted_text 0 start_idx @ slack_link
                 @ py_slice_from formatted_text (end_idx + 1)))"

declare format_links.simps [code]

text \<open>
  Well-formed input, as the specification describes it: plain text interleaved with
  links of the shape \<^verbatim>\<open>[label](url)\<close>. Plain text may hold anything but an opening
  bracket, a label holds none of the four delimiters, and a URL holds neither an
  opening bracket nor a closing parenthesis. \<open>markdown\<close> is the text as it is received,
  \<open>slack_text\<close> the text with every link in the platform's \<^verbatim>\<open><url|label>\<close> form.
\<close>

datatype segment = Plain string | Link string string

fun markdown :: "segment list \<Rightarrow> string" where
  "markdown [] = []"
| "markdown (Plain s # segs) = s @ markdown segs"
| "markdown (Link label url # segs) = ''['' @ label @ '']('' @ url @ '')'' @ markdown segs"

fun slack_text :: "segment list \<Rightarrow> string" where
  "slack_text [] = []"
| "slack_text (Plain s # segs) = s @ slack_text segs"
| "slack_text (Link label url # segs) = ''<'' @ url @ ''|'' @ label @ ''>'' @ slack_text segs"

fun well_formed :: "segment \<Rightarrow> bool" where
  "well_formed (Plain s) = (CHR ''['' \<notin> set s)"
| "well_formed (Link label url) =
     (set label \<inter> set ''[]()'' = {} \<and> set url \<inter> set ''[)'' = {})"

text \<open>
  The shape of text on which the loop runs forever: an opening bracket, then a closing
  parenthesis before any closing bracket, a closing bracket later on, and no opening
  parenthesis anywhere.
\<close>

definition runaway :: "string \<Rightarrow> bool" where
  "runaway t \<longleftrightarrow>
     (\<exists>p a c d. t = p @ ''['' @ a @ '')'' @ c @ '']'' @ d
        \<and> CHR ''['' \<notin> set p \<and> CHR '')'' \<notin> set a \<and> CHR '']'' \<notin> set a
        \<and> CHR '']'' \<notin> set c \<and> CHR ''('' \<notin> set t)"

section \<open>The outside world\<close>

text \<open>
  The handler talks to the assistant backend and to the chat platform. Every such call
  is recorded, in order, in a log of calls; what the outside answers is a parameter of
  the model (\<open>world\<close>). An answer is either the part of a reply that the code reads, or
  the exception that the call raises.
\<close>

datatype exn =
    SlackApiError string string
  | Exception string

text \<open>
  \<open>SlackApiError msg err\<close>: \<^verbatim>\<open>str(e)\<close> is \<open>msg\<close> and \<^verbatim>\<open>e.response['error']\<close> is
  \<open>err\<close>. \<open>Exception msg\<close> stands for an exception of any other class.
\<close>

fun str_exn :: "exn \<Rightarrow> string" where
  "str_exn (SlackApiError msg err) = msg"
| "str_exn (Exception msg) = msg"

datatype call =
    is_CreateRun: CreateRun string
  | is_ListRuns: ListRuns "string option"
  | is_Sleep: Sleep
  | is_ListMessages: ListMessages "string option"
  | is_ConversationsReplies: ConversationsReplies "string option" "string option"
  | is_ChatPostMessage: ChatPostMessage "string option" "string option" string

text \<open>
  \<open>CreateRun\<close> is \<^verbatim>\<open>POST /threads/runs\<close>, \<open>ListRuns\<close> is
  \<^verbatim>\<open>GET /threads/{id}/runs\<close>, \<open>Sleep\<close> is \<^verbatim>\<open>time.sleep(5)\<close>, \<open>ListMessages\<close> is
  \<^verbatim>\<open>GET /threads/{id}/messages\<close>; the last two are the chat platform's
  \<^verbatim>\<open>conversations_replies\<close> and \<^verbatim>\<open>chat_postMessage\<close>. An identifier that the
  payload or a reply does not carry is Python's \<^verbatim>\<open>None\<close>, here \<open>None\<close>.
\<close>

datatype create_response =
    CreateReply nat string "string option"
  | CreateFault string

text \<open>
  \<open>CreateReply code body thread_id\<close>: the status code, the body as text, and the
  \<^verbatim>\<open>thread_id\<close> field of the body read as JSON. \<open>CreateFault\<close>: the request, or
  decoding its body, raised.
\<close>

datatype poll_response =
    RunStatus string
  | PollFault string

text \<open>
  \<open>RunStatus s\<close>: \<^verbatim>\<open>run_data['data'][0]['status']\<close> is \<open>s\<close>. \<open>PollFault\<close>: the request
  raised, or the reply has no such field.
\<close>

datatype messages_body =
    NoData
  | NoText
  | TextValue string
  | BadShape string

text \<open>
  The shapes that lines 201-208 tell apart in the reply to \<open>ListMessages\<close>: no
  \<^verbatim>\<open>data\<close> or an empty one; a first message whose \<^verbatim>\<open>content\<close> is missing, empty, not a
  list, or whose first part has no \<^verbatim>\<open>text\<close>; a first message whose text value is
  the given string; and any other shape, on which one of the subscripts raises.
\<close>

datatype fetch_response =
    MessagesReply nat string messages_body
  | FetchFault string

datatype replies_response =
    Replies "string list"
  | RepliesApiError string string
  | RepliesFault string

text \<open>
  \<open>Replies texts\<close>: the \<^verbatim>\<open>text\<close> of each message of the thread, oldest first.
\<close>

datatype post_response =
    Posted
  | PostApiError string string
  | PostFault string

record world =
  create_resp :: create_response
  runs_resp :: "nat \<Rightarrow> poll_response"
  messages_resp :: fetch_response
  replies_resp :: "nat \<Rightarrow> replies_response"
  post_resp :: "nat \<Rightarrow> post_response"
  save_succeeds :: bool
  admin_member_id :: string

text \<open>
  \<open>runs_resp w k\<close> answers the \<open>k\<close>-th status poll of a request (counting from 0), and
  likewise for the replies lookups and the posts; \<open>admin_member_id\<close> is the text that
  \<^verbatim>\<open>SLACK_ADMIN_MEMBER_ID\<close> renders to; \<open>save_succeeds\<close> tells whether the events file
  can be written.
\<close>

type_synonym 'a io = "call list \<Rightarrow> ((exn + 'a) \<times> call list) option"

text \<open>
  A computation takes the log of calls so far and, if it returns at all, gives its
  result or the exception it raised, with the log extended. \<open>None\<close>: it never returns.
\<close>

definition return_io :: "'a \<Rightarrow> 'a io" where
  "return_io x tr = Some (Inr x, tr)"

definition raise_io :: "exn \<Rightarrow> 'a io" where
  "raise_io e tr = Some (Inl e, tr)"

definition bind_io :: "'a io \<Rightarrow> ('a \<Rightarrow> 'b io) \<Rightarrow> 'b io" where
  "bind_io m f tr =
     (case m tr of
        None \<Rightarrow> None
      | Some (Inl e, tr') \<Rightarrow> Some (Inl e, tr')
      | Some (Inr x, tr') \<Rightarrow> f x tr')"

definition catch_io :: "'a io \<Rightarrow> (exn \<Rightarrow> 'a io) \<Rightarrow> 'a io" where
  "catch_io m h tr =
     (case m tr of
        None \<Rightarrow> None
      | Some (Inl e, tr') \<Rightarrow> h e tr'
      | Some (Inr x, tr') \<Rightarrow> Some (Inr x, tr'))"

fun str_nat :: "nat \<Rightarrow> string" where
  "str_nat n =
     (if n < 10 then [char_of (48 + n)]
      else str_nat (n div 10) @ [char_of (48 + n mod 10)])"

declare str_nat.simps [simp del]

section \<open>Assistant run client\<close>

definition create_thread :: "world \<Rightarrow> string \<Rightarrow> (string option) io" where
  "create_thread w input_text tr =
     (case create_resp w of
        CreateFault m \<Rightarrow> Some (Inl (Exception m), tr @ [CreateRun input_text])
      | CreateReply status_code body thread_id \<Rightarrow>
          if status_code \<noteq> 200
          then Some (Inl (Exception (''Failed to create thread: '' @ str_nat status_code
                                      @ '', '' @ body)),
                     tr @ [CreateRun input_text])
          else Some (Inr thread_id, tr @ [CreateRun input_text]))"

text \<open>
  \<^verbatim>\<open>wait_for_run_completion\<close> (lines 72-85) polls in a \<^verbatim>\<open>while True\<close> loop whose only
  exit is the \<^verbatim>\<open>return\<close> on a status in the list of line 81, or an exception.
\<close>

partial_function (option) wait_for_run_completion ::
  "world \<Rightarrow> string option \<Rightarrow> call list \<Rightarrow> ((exn + string) \<times> call list) option" where
  "wait_for_run_completion w thread_id tr =
     (case runs_resp w (length (filter is_ListRuns tr)) of
        PollFault m \<Rightarrow> Some (Inl (Exception m), tr @ [ListRuns thread_id])
      | RunStatus status \<Rightarrow>
          if status \<in> set [''completed'', ''failed'', ''incomplete'']
          then Some (Inr status, tr @ [ListRuns thread_id])
          else wait_for_run_completion w thread_id (tr @ [ListRuns thread_id, Sleep]))"

declare wait_for_run_completion.simps [code]

definition get_thread_messages :: "world \<Rightarrow> string option \<Rightarrow> messages_body io" where
  "get_thread_messages w thread_id tr =
     (case messages_resp w of
        FetchFault m \<Rightarrow> Some (Inl (Exception m), tr @ [ListMessages thread_id])
      | MessagesReply status_code body messages \<Rightarrow>
          if status_code \<noteq> 200
          then Some (Inl (Exception (''Failed to get thread messages: '' @ str_nat status_code
                                      @ '', '' @ body)),
                     tr @ [ListMessages thread_id])
          else Some (Inr messages, tr @ [ListMessages thread_id]))"

section \<open>Outbound notifier\<close>

definition conversations_replies ::
  "world \<Rightarrow> string option \<Rightarrow> string option \<Rightarrow> (string list) io" where
  "conversations_replies w channel thread_ts tr =
     (case replies_resp w (length (filter is_ConversationsReplies tr)) of
        Replies messages \<Rightarrow> Some (Inr messages, tr @ [ConversationsReplies channel thread_ts])
      | RepliesApiError msg err \<Rightarrow>
          Some (Inl (SlackApiError msg err), tr @ [ConversationsReplies channel thread_ts])
      | RepliesFault msg \<Rightarrow>
          Some (Inl (Exception msg), tr @ [ConversationsReplies channel thread_ts]))"

definition chat_postMessage ::
  "world \<Rightarrow> string option \<Rightarrow> string option \<Rightarrow> string \<Rightarrow> unit io" where
  "chat_postMessage w channel thread_ts text tr =
     (case post_resp w (length (filter is_ChatPostMessage tr)) of
        Posted \<Rightarrow> Some (Inr (), tr @ [ChatPostMessage channel thread_ts text])
      | PostApiError msg err \<Rightarrow>
          Some (Inl (SlackApiError msg err), tr @ [ChatPostMessage channel thread_ts text])
      | PostFault msg \<Rightarrow>
          Some (Inl (Exception msg), tr @ [ChatPostMessage channel thread_ts text]))"

text \<open>
  \<^verbatim>\<open>get_last_message\<close> (lines 115-128) catches \<^verbatim>\<open>SlackApiError\<close> only; \<^verbatim>\<open>None\<close> is
  what it returns for an empty thread and after that error.
\<close>

definition get_last_message ::
  "world \<Rightarrow> string option \<Rightarrow> string option \<Rightarrow> (string option) io" where
  "get_last_message w channel thread_ts =
     catch_io
       (bind_io (conversations_replies w channel thread_ts)
          (\<lambda>messages. return_io (if messages \<noteq> [] then Some (last messages) else None)))
       (\<lambda>e. case e of
               SlackApiError msg err \<Rightarrow> return_io None
             | Exception msg \<Rightarrow> raise_io e)"

text \<open>
  \<^verbatim>\<open>send_gpt_response\<close> (lines 130-152). The handler of the first post catches
  \<^verbatim>\<open>SlackApiError\<close> only, posts the alert for the administrator, and falls off its
  end; the function has no \<^verbatim>\<open>return\<close> statement and no \<^verbatim>\<open>raise\<close>.
\<close>

definition send_gpt_response ::
  "world \<Rightarrow> string option \<Rightarrow> string option \<Rightarrow> string \<Rightarrow> unit io" where
  "send_gpt_response w channel thread_ts text tr =
     (case format_links text of
        None \<Rightarrow> None
      | Some formatted_text \<Rightarrow>
          bind_io (get_last_message w channel thread_ts)
            (\<lambda>last_message.
               if last_message \<noteq> Some formatted_text
               then catch_io (chat_postMessage w channel thread_ts formatted_text)
                      (\<lambda>e. case e of
                              SlackApiError msg err \<Rightarrow>
                                (let error_message = ''Error sending message to Slack: '' @ err
                                 in chat_postMessage w channel thread_ts
                                      (''<@'' @ admin_member_id w @ ''> '' @ error_message))
                            | Exception msg \<Rightarrow> raise_io e)
               else return_io ())
            tr)"

section \<open>Deduplication store\<close>

text \<open>
  \<open>processed_events\<close> is the module-level set; \<open>events_file\<close> is what the file
  \<^verbatim>\<open>processed_events.json\<close> holds (\<open>None\<close>: no file yet). An event id is a string, or
  \<^verbatim>\<open>None\<close> when the payload has no \<^verbatim>\<open>event_id\<close>. \<^verbatim>\<open>save_processed_events\<close> (lines
  40-45) rewrites the whole file and only logs a failure to do so.
\<close>

record store =
  processed_events :: "string option set"
  events_file :: "string option set option"

definition save_processed_events :: "world \<Rightarrow> store \<Rightarrow> store" where
  "save_processed_events w s =
     (if save_succeeds w then s\<lparr>events_file := Some (processed_events s)\<rparr> else s)"

section \<open>Event intake\<close>

text \<open>
  What \<^verbatim>\<open>slack()\<close> reads from a request: the payload's \<^verbatim>\<open>type\<close>, \<^verbatim>\<open>challenge\<close> and
  \<^verbatim>\<open>event_id\<close>, the \<^verbatim>\<open>text\<close>, \<^verbatim>\<open>channel\<close> and \<^verbatim>\<open>ts\<close> of its \<^verbatim>\<open>event\<close> object, and
  the header \<^verbatim>\<open>X-Slack-Retry-Num\<close>. A field that is absent reads as \<^verbatim>\<open>None\<close>, except
  the text, which defaults to the empty string.
\<close>

record request =
  payload_type :: "string option"
  challenge :: "string option"
  event_id :: "string option"
  event_text :: string
  event_channel :: "string option"
  event_ts :: "string option"
  retry_num :: "string option"

datatype http_response =
    ChallengeReply "string option"
  | StatusReply string "string option"

text \<open>
  \<open>StatusReply status message\<close> is the JSON object with a \<^verbatim>\<open>status\<close> and, when
  given, a \<^verbatim>\<open>message\<close>.
\<close>

definition truthy :: "string option \<Rightarrow> bool" where
  "truthy v = (case v of None \<Rightarrow> False | Some x \<Rightarrow> x \<noteq> [])"

text \<open>
  Lines 159-180, the part of the handler that runs before the lock is taken: the
  response when the handler returns there, \<open>None\<close> when it goes on to line 182.
\<close>

definition before_lock :: "request \<Rightarrow> store \<Rightarrow> http_response option" where
  "before_lock req s =
     (if payload_type req = Some ''url_verification'' then Some (ChallengeReply (challenge req))
      else if truthy (retry_num req) then Some (StatusReply ''ok'' None)
      else if event_id req \<in> processed_events s
      then Some (StatusReply ''ok'' (Some ''Event already processed''))
      else None)"

text \<open>Lines 184-185: the event is marked as processed and the set is saved.\<close>

definition claim :: "world \<Rightarrow> request \<Rightarrow> store \<Rightarrow> store" where
  "claim w req s =
     save_processed_events w (s\<lparr>processed_events := insert (event_id req) (processed_events s)\<rparr>)"

text \<open>Lines 201-208: the text of the first message, or the structural error.\<close>

definition message_text :: "messages_body \<Rightarrow> string io" where
  "message_text messages =
     (case messages of
        NoData \<Rightarrow> raise_io (Exception ''Unexpected API response structure'')
      | NoText \<Rightarrow> raise_io (Exception ''Unexpected API response structure'')
      | TextValue v \<Rightarrow> return_io v
      | BadShape m \<Rightarrow> raise_io (Exception m))"

text \<open>Lines 188-215, the body of the \<^verbatim>\<open>try\<close>.\<close>

definition try_body :: "world \<Rightarrow> request \<Rightarrow> http_response io" where
  "try_body w req =
     bind_io (create_thread w (event_text req))
       (\<lambda>thread_id.
          bind_io (wait_for_run_completion w thread_id)
            (\<lambda>status.
               if status = ''completed''
               then bind_io (get_thread_messages w thread_id)
                      (\<lambda>messages.
                         bind_io (message_text messages)
                           (\<lambda>last_message.
                              bind_io (send_gpt_response w (event_channel req) (event_ts req)
                                         last_message)
                                (\<lambda>_. return_io (StatusReply ''ok'' None))))
               else (let error_message = ''Run failed with status: '' @ status
                     in bind_io (send_gpt_response w (event_channel req) (event_ts req)
                                   error_message)
                          (\<lambda>_. return_io (StatusReply ''error'' (Some error_message))))))"

text \<open>Lines 187-219: the \<^verbatim>\<open>try\<close> with its \<^verbatim>\<open>except Exception\<close> handler.\<close>

definition execute :: "world \<Rightarrow> request \<Rightarrow> http_response io" where
  "execute w req =
     catch_io (try_body w req)
       (\<lambda>e. let error_message = ''Error: '' @ str_exn e
             in bind_io (send_gpt_response w (event_channel req) (event_ts req) error_message)
                  (\<lambda>_. return_io (StatusReply ''error'' (Some error_message))))"

text \<open>
  Two parts of lines 187-219 under names of their own, for statements about the
  handler after the messages have been fetched: what the \<^verbatim>\<open>try\<close> does with the
  fetched messages (lines 197-211), and the \<^verbatim>\<open>except\<close> handler (lines 216-219).
\<close>

definition on_messages :: "world \<Rightarrow> request \<Rightarrow> messages_body \<Rightarrow> http_response io" where
  "on_messages w req messages =
     bind_io (message_text messages)
       (\<lambda>last_message.
          bind_io (send_gpt_response w (event_channel req) (event_ts req) last_message)
            (\<lambda>_. return_io (StatusReply ''ok'' None)))"

definition on_exception :: "world \<Rightarrow> request \<Rightarrow> exn \<Rightarrow> http_response io" where
  "on_exception w req e =
     (let error_message = ''Error: '' @ str_exn e
      in bind_io (send_gpt_response w (event_channel req) (event_ts req) error_message)
           (\<lambda>_. return_io (StatusReply ''error'' (Some error_message))))"

text \<open>
  The handler, one request at a time. It gives the store after the request and, if
  the handler returns, the response (or the exception that escapes it) with the calls
  it made. The store is written before the first call to the outside, so it is known
  even when the handler never returns.
\<close>

definition slack ::
  "world \<Rightarrow> request \<Rightarrow> store \<Rightarrow> store \<times> ((exn + http_response) \<times> call list) option" where
  "slack w req s =
     (case before_lock req s of
        Some response \<Rightarrow> (s, Some (Inr response, []))
      | None \<Rightarrow> (claim w req s, execute w req []))"

text \<open>Requests served one after the other, each against its own answers of the outside.\<close>

fun serve :: "(world \<times> request) list \<Rightarrow> store \<Rightarrow> store" where
  "serve [] s = s"
| "serve ((w, req) # rest) s = serve rest (fst (slack w req s))"

section \<open>Requests served concurrently\<close>

text \<open>
  The server handles each request on a thread of its own. A thread is at one of the
  points of \<^verbatim>\<open>slack()\<close> where another thread can run in between: before the check
  of line 178, waiting for \<^verbatim>\<open>event_lock\<close> at line 182, holding the lock before line
  184, holding the lock before line 187, and returned. \<open>step i\<close> lets thread \<open>i\<close> run to
  its next point; a thread that waits for a lock that is held does not move, and a
  thread whose \<^verbatim>\<open>try\<close> never finishes keeps the lock.
\<close>

datatype pc =
    AtCheck
  | AtLock
  | AtClaim
  | AtExecute
  | Returned "(exn + http_response) \<times> call list"

record thread =
  th_world :: world
  th_request :: request
  th_pc :: pc

record server =
  srv_store :: store
  lock_held :: bool
  threads :: "thread list"

definition set_pc :: "nat \<Rightarrow> pc \<Rightarrow> server \<Rightarrow> server" where
  "set_pc i p srv = srv\<lparr>threads := (threads srv)[i := (threads srv ! i)\<lparr>th_pc := p\<rparr>]\<rparr>"

definition step :: "nat \<Rightarrow> server \<Rightarrow> server" where
  "step i srv =
     (if length (threads srv) \<le> i then srv
      else
        let th = threads srv ! i
        in case th_pc th of
             AtCheck \<Rightarrow>
               (case before_lock (th_request th) (srv_store srv) of
                  Some response \<Rightarrow> set_pc i (Returned (Inr response, [])) srv
                | None \<Rightarrow> set_pc i AtLock srv)
           | AtLock \<Rightarrow>
               if lock_held srv then srv else set_pc i AtClaim (srv\<lparr>lock_held := True\<rparr>)
           | AtClaim \<Rightarrow>
               set_pc i AtExecute
                 (srv\<lparr>srv_store := claim (th_world th) (th_request th) (srv_store srv)\<rparr>)
           | AtExecute \<Rightarrow>
               (case execute (th_world th) (th_request th) [] of
                  None \<Rightarrow> srv
                | Some r \<Rightarrow> set_pc i (Returned r) (srv\<lparr>lock_held := False\<rparr>))
           | Returned r \<Rightarrow> srv)"

fun run :: "nat list \<Rightarrow> server \<Rightarrow> server" where
  "run [] srv = srv"
| "run (i # schedule) srv = run schedule (step i srv)"

text \<open>The calls that the threads which have returned made to create a run.\<close>

fun run_creations :: "thread list \<Rightarrow> call list" where
  "run_creations [] = []"
| "run_creations (th # ths) =
     (case th_pc th of
        Returned r \<Rightarrow> filter is_CreateRun (snd r) @ run_creations ths
      | _ \<Rightarrow> run_creations ths)"

section \<open>Vocabulary of the statements\<close>

definition platform_call :: "call \<Rightarrow> bool" where
  "platform_call c \<longleftrightarrow> is_ConversationsReplies c \<or> is_ChatPostMessage c"

text \<open>
  A world in which everything goes well at once, a request for a fresh event, and the
  store of a server that has processed nothing: the concrete inputs of the examples.
\<close>

definition sample_world :: world where
  "sample_world =
     \<lparr>create_resp = CreateReply 200 ''{}'' (Some ''thread_1''),
      runs_resp = (\<lambda>k. RunStatus ''completed''),
      messages_resp = MessagesReply 200 ''{}'' (TextValue ''hello''),
      replies_resp = (\<lambda>k. Replies []),
      post_resp = (\<lambda>k. Posted),
      save_succeeds = True,
      admin_member_id = ''U0ADMIN''\<rparr>"

definition sample_request :: request where
  "sample_request =
     \<lparr>payload_type = Some ''event_callback'',
      challenge = None,
      event_id = Some ''Ev01'',
      event_text = ''hi'',
      event_channel = Some ''C1'',
      event_ts = Some ''17.1'',
      retry_num = None\<rparr>"

definition empty_store :: store where
  "empty_store = \<lparr>processed_events = {}, events_file = None\<rparr>"

definition sample_thread :: thread where
  "sample_thread = \<lparr>th_world = sample_world, th_request = sample_request, th_pc = AtCheck\<rparr>"

text \<open>
  \<open>adds P m\<close>: whenever the computation \<open>m\<close> returns, the log it leaves is the log
  it was given followed by calls that all satisfy \<open>P\<close>.
\<close>

definition adds :: "(call \<Rightarrow> bool) \<Rightarrow> 'a io \<Rightarrow> bool" where
  "adds P m \<longleftrightarrow>
     (\<forall>tr r tr'. m tr = Some (r, tr') \<longrightarrow> (\<exists>ext. tr' = tr @ ext \<and> list_all P ext))"

text \<open>Variations of the sample world, one for each example below.\<close>

definition cancelled_world :: world where
  "cancelled_world =
     sample_world\<lparr>runs_resp :=
       (\<lambda>k. if k = 0 then RunStatus ''cancelled'' else RunStatus ''completed'')\<rparr>"

definition four_polls_world :: world where
  "four_polls_world =
     sample_world\<lparr>runs_resp :=
       (\<lambda>k. if k = 0 then RunStatus ''queued''
            else if k < 3 then RunStatus ''in_progress''
            else RunStatus ''completed'')\<rparr>"

definition lookup_fault_world :: world where
  "lookup_fault_world =
     sample_world\<lparr>replies_resp := (\<lambda>k. RepliesFault ''connection refused'')\<rparr>"

definition send_failure_world :: world where
  "send_failure_world =
     sample_world\<lparr>post_resp :=
       (\<lambda>k. if k = 0
            then PostApiError ''The request to the Slack API failed.'' ''channel_not_found''
            else Posted)\<rparr>"

definition runaway_reply_world :: world where
  "runaway_reply_world =
     four_polls_world\<lparr>messages_resp := MessagesReply 200 ''{}'' (TextValue ''[a)b]'')\<rparr>"

definition duplicate_world :: world where
  "duplicate_world = sample_world\<lparr>replies_resp := (\<lambda>k. Replies [''hi'', ''hello''])\<rparr>"

definition slow_send_failure_world :: world where
  "slow_send_failure_world = four_polls_world\<lparr>post_resp := post_resp send_failure_world\<rparr>"

text \<open>
  A server with an empty store on which the same payload has been delivered twice, both
  requests still before the check of line 178.
\<close>

definition two_deliveries :: server where
  "two_deliveries =
     \<lparr>srv_store = empty_store, lock_held = False, threads = [sample_thread, sample_thread]\<rparr>"

section \<open>Facts about the string primitives\<close>

lemmas io_defs = return_io_def raise_io_def bind_io_def catch_io_def

lemma index_of_None: "index_of c s = None \<longleftrightarrow> c \<notin> set s"
  by (induction s) auto

lemma index_of_first: "c \<notin> set v \<Longrightarrow> index_of c (v @ c # w) = Some (length v)"
  by (induction v) auto

lemma py_bound_nat: "py_bound (int k) n = min k n"
  by (simp add: py_bound_def)

lemma py_find_app:
  "c \<notin> set v \<Longrightarrow> py_find (u @ v @ c # w) c (int (length u)) = int (length u + length v)"
  by (simp add: py_find_def py_bound_nat index_of_first)

lemma py_find_none:
  "c \<notin> set v \<Longrightarrow> py_find (u @ v) c (int (length u)) = - 1"
  using index_of_None [of c v] by (simp add: py_find_def py_bound_nat)

lemma py_slice_app:
  "py_slice (u @ v @ w) (int (length u)) (int (length u + length v)) = v"
  by (simp add: py_slice_def py_bound_def Let_def)

lemma py_slice_prefix: "py_slice (u @ w) 0 (int (length u)) = u"
  using py_slice_app [of "[]" u w] by simp

lemma py_slice_from_app: "py_slice_from (u @ w) (int (length u)) = w"
  by (simp add: py_slice_from_def py_bound_nat)



section \<open>The formatter on well-formed text\<close>

lemma link_indices:
  assumes t: "t = pre @ ''['' @ l @ '']('' @ u @ '')'' @ rest"
    and pre: "CHR ''['' \<notin> set pre"
    and l: "set l \<inter> set ''[]()'' = {}" and u: "set u \<inter> set ''[)'' = {}"
  shows "py_find t CHR ''['' 0 = int (length pre)"
    and "py_find t CHR '')'' (int (length pre)) = int (length pre + length l + length u + 3)"
    and "py_find t CHR '']'' (int (length pre)) = int (length pre + length l + 1)"
    and "py_find t CHR ''('' (int (length pre)) + 1 = int (length pre + length l + 3)"
    and "py_slice t (int (length pre) + 1) (int (length pre + length l + 1)) = l"
    and "py_slice t (int (length pre + length l + 3)) (int (length pre + length l + length u + 3)) = u"
    and "py_slice t 0 (int (length pre)) = pre"
    and "py_slice_from t (int (length pre + length l + length u + 3) + 1) = rest"
proof -
  show "py_find t CHR ''['' 0 = int (length pre)"
    using py_find_app [of "CHR ''[''" pre "[]" "l @ '']('' @ u @ '')'' @ rest"] pre t by simp
  show "py_find t CHR '')'' (int (length pre)) = int (length pre + length l + length u + 3)"
    using py_find_app [of "CHR '')''" "''['' @ l @ '']('' @ u" pre rest] l u t by simp
  show "py_find t CHR '']'' (int (length pre)) = int (length pre + length l + 1)"
    using py_find_app [of "CHR '']''" "''['' @ l" pre "''('' @ u @ '')'' @ rest"] l t by simp
  show "py_find t CHR ''('' (int (length pre)) + 1 = int (length pre + length l + 3)"
    using py_find_app [of "CHR ''(''" "''['' @ l @ '']''" pre "u @ '')'' @ rest"] l t by simp
  show "py_slice t (int (length pre) + 1) (int (length pre + length l + 1)) = l"
    using py_slice_app [of "pre @ ''[''" l "'']('' @ u @ '')'' @ rest"] t by (simp add: ac_simps)
  show "py_slice t (int (length pre + length l + 3)) (int (length pre + length l + length u + 3)) = u"
    using py_slice_app [of "pre @ ''['' @ l @ ''](''" u "'')'' @ rest"] t by (simp add: ac_simps)
  show "py_slice t 0 (int (length pre)) = pre"
    using py_slice_prefix [of pre "''['' @ l @ '']('' @ u @ '')'' @ rest"] t by simp
  show "py_slice_from t (int (length pre + length l + length u + 3) + 1) = rest"
    using py_slice_from_app [of "pre @ ''['' @ l @ '']('' @ u @ '')''" rest] t by (simp add: ac_simps)
qed

lemma format_links_link:
  assumes pre: "CHR ''['' \<notin> set pre"
    and l: "set l \<inter> set ''[]()'' = {}" and u: "set u \<inter> set ''[)'' = {}"
  shows "format_links (pre @ ''['' @ l @ '']('' @ u @ '')'' @ rest)
         = format_links (pre @ ''<'' @ u @ ''|'' @ l @ ''>'' @ rest)"
proof -
  note idx = link_indices [OF refl pre l u, of rest]
  show ?thesis
    by (subst format_links.simps) (simp only: idx Let_def, simp)
qed

lemma format_links_plain: "CHR ''['' \<notin> set t \<Longrightarrow> format_links t = Some t"
  using py_find_none [of "CHR ''[''" t "[]"]
  by (subst format_links.simps) simp

lemma format_links_markdown:
  "CHR ''['' \<notin> set pre \<Longrightarrow> list_all well_formed segs \<Longrightarrow>
   format_links (pre @ markdown segs) = Some (pre @ slack_text segs)"
proof (induction segs arbitrary: pre)
  case Nil
  then show ?case by (simp add: format_links_plain)
next
  case (Cons seg segs)
  show ?case
  proof (cases seg)
    case (Plain s)
    with Cons.prems have "CHR ''['' \<notin> set (pre @ s)" by simp
    from Cons.IH [OF this] Cons.prems Plain show ?thesis by simp
  next
    case (Link l u)
    with Cons.prems have l: "set l \<inter> set ''[]()'' = {}" and u: "set u \<inter> set ''[)'' = {}"
      by simp_all
    from l u Cons.prems have "CHR ''['' \<notin> set (pre @ ''<'' @ u @ ''|'' @ l @ ''>'')"
      by auto
    from Cons.IH [OF this] Cons.prems
    have "format_links (pre @ ''<'' @ u @ ''|'' @ l @ ''>'' @ markdown segs)
          = Some (pre @ ''<'' @ u @ ''|'' @ l @ ''>'' @ slack_text segs)"
      by simp
    with format_links_link [OF _ l u, of pre "markdown segs"] Cons.prems Link
    show ?thesis by simp
  qed
qed

lemma format_links_fixed: "format_links t = Some r \<Longrightarrow> format_links r = Some r"
proof (induction rule: format_links.raw_induct [rotated 1, consumes 1])
  case (1 loop t r)
  show ?case
  proof (cases "py_find t CHR ''['' 0 = - 1 \<or> py_find t CHR '')'' (py_find t CHR ''['' 0) = - 1")
    case True
    with 1(2) have "r = t" by (simp add: Let_def)
    with True show ?thesis by (subst format_links.simps) (simp add: Let_def)
  next
    case False
    with 1(2) show ?thesis by (auto simp: Let_def intro: 1(1))
  qed
qed

text \<open>
  Claim C8. On every text whose links are well-formed \<^verbatim>\<open>[label](url)\<close> patterns,
  \<open>format_links\<close> returns the text with each link in the platform's form, and applying
  \<open>format_links\<close> to that result returns it unchanged: formatting twice gives what
  formatting once gives.
\<close>

theorem format_links_idempotent:
  assumes "list_all well_formed segs"
  shows "format_links (markdown segs) = Some (slack_text segs)
       \<and> Option.bind (format_links (markdown segs)) format_links = format_links (markdown segs)"
proof -
  have a: "format_links (markdown segs) = Some (slack_text segs)"
    using format_links_markdown [of "[]" segs] assms by simp
  from format_links_fixed [OF a] a show ?thesis by simp
qed

theorem format_links_idempotent_witness:
  "list_all well_formed [Plain ''see '', Link ''docs'' ''http://x/y'', Plain '' now'']
   \<and> format_links ''see [docs](http://x/y) now'' = Some ''see <http://x/y|docs> now''
   \<and> Option.bind (format_links ''see [docs](http://x/y) now'') format_links
       = format_links ''see [docs](http://x/y) now''"
proof -
  have wf: "list_all well_formed [Plain ''see '', Link ''docs'' ''http://x/y'', Plain '' now'']"
    by simp
  have "markdown [Plain ''see '', Link ''docs'' ''http://x/y'', Plain '' now'']
        = ''see [docs](http://x/y) now''"
    and "slack_text [Plain ''see '', Link ''docs'' ''http://x/y'', Plain '' now'']
        = ''see <http://x/y|docs> now''"
    by simp_all
  with format_links_idempotent [OF wf] wf show ?thesis by metis
qed

section \<open>The formatter on text it never finishes\<close>

lemma runaway_indices:
  assumes t: "t = p @ ''['' @ a @ '')'' @ c @ '']'' @ d"
    and p: "CHR ''['' \<notin> set p" and a1: "CHR '')'' \<notin> set a" and a2: "CHR '']'' \<notin> set a"
    and c: "CHR '']'' \<notin> set c" and n: "CHR ''('' \<notin> set t"
  shows "py_find t CHR ''['' 0 = int (length p)"
    and "py_find t CHR '')'' (int (length p)) = int (length p + length a + 1)"
    and "py_find t CHR '']'' (int (length p)) = int (length p + length a + length c + 2)"
    and "py_find t CHR ''('' (int (length p)) + 1 = 0"
    and "py_slice t (int (length p) + 1) (int (length p + length a + length c + 2)) = a @ '')'' @ c"
    and "py_slice t 0 (int (length p + length a + 1)) = p @ ''['' @ a"
    and "py_slice t 0 (int (length p)) = p"
    and "py_slice_from t (int (length p + length a + 1) + 1) = c @ '']'' @ d"
proof -
  show "py_find t CHR ''['' 0 = int (length p)"
    using py_find_app [of "CHR ''[''" p "[]" "a @ '')'' @ c @ '']'' @ d"] p t by simp
  show "py_find t CHR '')'' (int (length p)) = int (length p + length a + 1)"
    using py_find_app [of "CHR '')''" "''['' @ a" p "c @ '']'' @ d"] a1 t by simp
  show "py_find t CHR '']'' (int (length p)) = int (length p + length a + length c + 2)"
    using py_find_app [of "CHR '']''" "''['' @ a @ '')'' @ c" p d] a2 c t by simp
  show "py_find t CHR ''('' (int (length p)) + 1 = 0"
    using py_find_none [of "CHR ''(''" "''['' @ a @ '')'' @ c @ '']'' @ d" p] n t by simp
  show "py_slice t (int (length p) + 1) (int (length p + length a + length c + 2)) = a @ '')'' @ c"
    using py_slice_app [of "p @ ''[''" "a @ '')'' @ c" "'']'' @ d"] t by (simp add: ac_simps)
  show "py_slice t 0 (int (length p + length a + 1)) = p @ ''['' @ a"
    using py_slice_prefix [of "p @ ''['' @ a" "'')'' @ c @ '']'' @ d"] t by simp
  show "py_slice t 0 (int (length p)) = p"
    using py_slice_prefix [of p "''['' @ a @ '')'' @ c @ '']'' @ d"] t by simp
  show "py_slice_from t (int (length p + length a + 1) + 1) = c @ '']'' @ d"
    using py_slice_from_app [of "p @ ''['' @ a @ '')''" "c @ '']'' @ d"] t by (simp add: add.commute)
qed

lemma runaway_never_returns: "runaway t \<Longrightarrow> format_links t = None"
proof (rule ccontr)
  assume r: "runaway t" and "format_links t \<noteq> None"
  then obtain y where "format_links t = Some y" by auto
  then have "\<not> runaway t"
  proof (induction rule: format_links.raw_induct [rotated 1, consumes 1])
    case (1 loop t y)
    show ?case
    proof
      assume "runaway t"
      then obtain p a c d where
        t: "t = p @ ''['' @ a @ '')'' @ c @ '']'' @ d"
        and p: "CHR ''['' \<notin> set p" and a1: "CHR '')'' \<notin> set a" and a2: "CHR '']'' \<notin> set a"
        and c: "CHR '']'' \<notin> set c" and n: "CHR ''('' \<notin> set t"
        unfolding runaway_def by blast
      note idx = runaway_indices [OF t p a1 a2 c n]
      let ?t' = "p @ (''<'' @ (p @ ''['' @ a) @ ''|'' @ (a @ '')'' @ c) @ ''>'') @ c @ '']'' @ d"
      have "loop ?t' = Some y"
        using 1(2) by (simp only: idx Let_def) simp
      then have "\<not> runaway ?t'" using 1(1) by blast
      moreover have "runaway ?t'"
        unfolding runaway_def using p a1 a2 c n t
        by (intro exI [of _ "p @ ''<'' @ p"] exI [of _ "a @ ''|'' @ a"]
              exI [of _ "c @ ''>'' @ c"] exI [of _ d]) simp
      ultimately show False by simp
    qed
  qed
  with r show False by simp
qed

text \<open>
  Claim C9 says that \<open>format_links\<close> returns a result for every input, and names the
  inputs of the shape \<^verbatim>\<open>[a)b]\<close>. On the input \<^verbatim>\<open>[a)b]\<close> the loop never reaches its
  \<^verbatim>\<open>break\<close>: the search for an opening parenthesis fails, the slice for the URL then
  starts at index 0 and copies the opening bracket, the label copies the closing
  parenthesis, and the rewritten text is again of that shape, about twice as long.
\<close>

theorem format_links_never_returns: "format_links ''[a)b]'' = None"
proof -
  have "runaway ''[a)b]''"
    unfolding runaway_def
    by (intro exI [of _ "[]"] exI [of _ "''a''"] exI [of _ "''b''"]) simp
  then show ?thesis by (rule runaway_never_returns)
qed

section \<open>Facts about the polling loop and the log of calls\<close>

lemma wait_returns:
  assumes "\<forall>k<n. \<exists>s. runs_resp w (length (filter is_ListRuns tr) + k) = RunStatus s
                      \<and> s \<notin> set [''completed'', ''failed'', ''incomplete'']"
    and "runs_resp w (length (filter is_ListRuns tr) + n) = RunStatus s"
    and "s \<in> set [''completed'', ''failed'', ''incomplete'']"
  shows "wait_for_run_completion w thread_id tr
         = Some (Inr s, tr @ concat (replicate n [ListRuns thread_id, Sleep]) @ [ListRuns thread_id])"
  using assms
proof (induction n arbitrary: tr)
  case 0
  then show ?case by (subst wait_for_run_completion.simps) simp
next
  case (Suc n)
  let ?tr = "tr @ [ListRuns thread_id, Sleep]"
  from Suc.prems(1) obtain s0 where
    s0: "runs_resp w (length (filter is_ListRuns tr)) = RunStatus s0"
    "s0 \<notin> set [''completed'', ''failed'', ''incomplete'']"
    by force
  have len: "length (filter is_ListRuns ?tr) = Suc (length (filter is_ListRuns tr))" by simp
  have a: "\<forall>k<n. \<exists>s. runs_resp w (length (filter is_ListRuns ?tr) + k) = RunStatus s
                      \<and> s \<notin> set [''completed'', ''failed'', ''incomplete'']"
  proof (intro allI impI)
    fix k assume "k < n"
    then have "Suc k < Suc n" by simp
    with Suc.prems(1) show "\<exists>s. runs_resp w (length (filter is_ListRuns ?tr) + k) = RunStatus s
                      \<and> s \<notin> set [''completed'', ''failed'', ''incomplete'']"
      unfolding len by (metis add_Suc_shift)
  qed
  have b: "runs_resp w (length (filter is_ListRuns ?tr) + n) = RunStatus s"
    using Suc.prems(2) unfolding len by simp
  have "wait_for_run_completion w thread_id tr = wait_for_run_completion w thread_id ?tr"
    using s0 by (subst wait_for_run_completion.simps) simp
  also have "\<dots> = Some (Inr s, ?tr @ concat (replicate n [ListRuns thread_id, Sleep]) @ [ListRuns thread_id])"
    by (rule Suc.IH [OF a b Suc.prems(3)])
  finally show ?case by simp
qed

lemma wait_never_returns:
  assumes "\<forall>k. \<exists>s. runs_resp w k = RunStatus s \<and> s \<notin> set [''completed'', ''failed'', ''incomplete'']"
  shows "wait_for_run_completion w thread_id tr = None"
proof (rule ccontr)
  assume "wait_for_run_completion w thread_id tr \<noteq> None"
  then obtain y where "wait_for_run_completion w thread_id tr = Some y" by auto
  then have "\<not> (\<forall>k. \<exists>s. runs_resp w k = RunStatus s
                 \<and> s \<notin> set [''completed'', ''failed'', ''incomplete''])"
  proof (induction rule: wait_for_run_completion.raw_induct [rotated 1, consumes 1])
    case (1 loop w tid tr y)
    show ?case
    proof
      assume a: "\<forall>k. \<exists>s. runs_resp w k = RunStatus s
                 \<and> s \<notin> set [''completed'', ''failed'', ''incomplete'']"
      then obtain s where "runs_resp w (length (filter is_ListRuns tr)) = RunStatus s"
        and "s \<notin> set [''completed'', ''failed'', ''incomplete'']" by blast
      with 1(2) have "loop w tid (tr @ [ListRuns tid, Sleep]) = Some y" by simp
      from 1(1) [OF this] a show False by blast
    qed
  qed
  with assms show False by blast
qed

lemma filter_polls [simp]:
  "filter is_ListRuns (concat (replicate n [ListRuns tid, Sleep])) = replicate n (ListRuns tid)"
  "filter is_ChatPostMessage (concat (replicate n [ListRuns tid, Sleep])) = []"
  "filter is_ConversationsReplies (concat (replicate n [ListRuns tid, Sleep])) = []"
  "filter is_ListMessages (concat (replicate n [ListRuns tid, Sleep])) = []"
  by (induction n) simp_all

lemma get_last_message_cases:
  "get_last_message w ch ts tr =
     (case replies_resp w (length (filter is_ConversationsReplies tr)) of
        Replies ms \<Rightarrow> Some (Inr (if ms \<noteq> [] then Some (last ms) else None), tr @ [ConversationsReplies ch ts])
      | RepliesApiError msg err \<Rightarrow> Some (Inr None, tr @ [ConversationsReplies ch ts])
      | RepliesFault msg \<Rightarrow> Some (Inl (Exception msg), tr @ [ConversationsReplies ch ts]))"
  by (simp add: get_last_message_def catch_io_def bind_io_def conversations_replies_def
      return_io_def raise_io_def split: replies_response.splits)


lemma addsD: "adds P m \<Longrightarrow> m tr = Some (r, tr') \<Longrightarrow> \<exists>ext. tr' = tr @ ext \<and> list_all P ext"
  unfolding adds_def by blast

lemma adds_return: "adds P (return_io x)"
  by (simp add: adds_def return_io_def)

lemma adds_raise: "adds P (raise_io e)"
  by (simp add: adds_def raise_io_def)

lemma adds_bind:
  assumes m: "adds P m" and f: "\<And>x. adds P (f x)"
  shows "adds P (bind_io m f)"
  unfolding adds_def
proof (intro allI impI)
  fix tr r tr'
  assume a: "bind_io m f tr = Some (r, tr')"
  then obtain x t1 where m1: "m tr = Some (x, t1)"
    by (cases "m tr") (auto simp: bind_io_def)
  from addsD [OF m m1] obtain e1 where e1: "t1 = tr @ e1" "list_all P e1" by blast
  show "\<exists>ext. tr' = tr @ ext \<and> list_all P ext"
  proof (cases x)
    case (Inl e)
    with a m1 e1 show ?thesis by (auto simp: bind_io_def)
  next
    case (Inr y)
    with a m1 have "f y t1 = Some (r, tr')" by (simp add: bind_io_def)
    from addsD [OF f this] obtain e2 where "tr' = t1 @ e2" "list_all P e2" by blast
    with e1 show ?thesis by auto
  qed
qed

lemma adds_catch:
  assumes m: "adds P m" and h: "\<And>e. adds P (h e)"
  shows "adds P (catch_io m h)"
  unfolding adds_def
proof (intro allI impI)
  fix tr r tr'
  assume a: "catch_io m h tr = Some (r, tr')"
  then obtain x t1 where m1: "m tr = Some (x, t1)"
    by (cases "m tr") (auto simp: catch_io_def)
  from addsD [OF m m1] obtain e1 where e1: "t1 = tr @ e1" "list_all P e1" by blast
  show "\<exists>ext. tr' = tr @ ext \<and> list_all P ext"
  proof (cases x)
    case (Inr y)
    with a m1 e1 show ?thesis by (auto simp: catch_io_def)
  next
    case (Inl e)
    with a m1 have "h e t1 = Some (r, tr')" by (simp add: catch_io_def)
    from addsD [OF h this] obtain e2 where "tr' = t1 @ e2" "list_all P e2" by blast
    with e1 show ?thesis by auto
  qed
qed

lemma adds_conversations_replies: "adds platform_call (conversations_replies w ch ts)"
  by (auto simp: adds_def conversations_replies_def platform_call_def split: replies_response.splits)

lemma adds_chat_postMessage: "adds platform_call (chat_postMessage w ch ts text)"
  by (auto simp: adds_def chat_postMessage_def platform_call_def split: post_response.splits)

lemma adds_get_last_message: "adds platform_call (get_last_message w ch ts)"
  unfolding get_last_message_def
  by (intro adds_catch adds_bind adds_conversations_replies)
     (auto intro: adds_return adds_raise split: exn.splits)

lemma adds_send_gpt_response: "adds platform_call (send_gpt_response w ch ts text)"
proof (cases "format_links text")
  case None
  then show ?thesis by (simp add: adds_def send_gpt_response_def)
next
  case (Some ft)
  have "adds platform_call (bind_io (get_last_message w ch ts)
            (\<lambda>last_message.
               if last_message \<noteq> Some ft
               then catch_io (chat_postMessage w ch ts ft)
                      (\<lambda>e. case e of
                              SlackApiError msg err \<Rightarrow>
                                (let error_message = ''Error sending message to Slack: '' @ err
                                 in chat_postMessage w ch ts
                                      (''<@'' @ admin_member_id w @ ''> '' @ error_message))
                            | Exception msg \<Rightarrow> raise_io e)
               else return_io ()))"
    by (intro adds_bind adds_get_last_message)
       (auto intro!: adds_catch adds_chat_postMessage adds_return adds_raise simp: Let_def split: exn.splits)
  with Some show ?thesis by (simp add: adds_def send_gpt_response_def)
qed

lemma adds_message_text: "adds P (message_text m)"
  by (cases m) (simp_all add: message_text_def adds_return adds_raise)

lemma adds_notify:
  "adds platform_call (bind_io (send_gpt_response w ch ts text) (\<lambda>_. return_io resp))"
  by (intro adds_bind adds_send_gpt_response adds_return)

section \<open>The handler on concrete and on arbitrary requests\<close>

lemma format_links_hello: "format_links ''hello'' = Some ''hello''"
  by (rule format_links_plain) simp

lemma wait_sample:
  "wait_for_run_completion sample_world tid [CreateRun ''hi''] =
     Some (Inr ''completed'', [CreateRun ''hi'', ListRuns tid])"
  using wait_returns [of 0 sample_world "[CreateRun ''hi'']" "''completed''" tid]
  by (simp add: sample_world_def)

lemma execute_sample:
  "execute sample_world sample_request [] =
     Some (Inr (StatusReply ''ok'' None),
           [CreateRun ''hi'', ListRuns (Some ''thread_1''), ListMessages (Some ''thread_1''),
            ConversationsReplies (Some ''C1'') (Some ''17.1''),
            ChatPostMessage (Some ''C1'') (Some ''17.1'') ''hello''])"
proof -
  have c: "create_thread sample_world (event_text sample_request) []
           = Some (Inr (Some ''thread_1''), [CreateRun ''hi''])"
    by (simp add: create_thread_def sample_world_def sample_request_def)
  show ?thesis
    unfolding execute_def try_body_def
    by (simp add: io_defs c wait_sample)
       (simp add: get_thread_messages_def message_text_def send_gpt_response_def
          get_last_message_def conversations_replies_def chat_postMessage_def io_defs
          format_links_hello sample_world_def sample_request_def)
qed

lemma before_lock_sample:
  "before_lock sample_request s =
     (if Some ''Ev01'' \<in> processed_events s
      then Some (StatusReply ''ok'' (Some ''Event already processed'')) else None)"
  by (simp add: before_lock_def sample_request_def truthy_def)

lemma claim_sample:
  "claim sample_world sample_request s =
     s\<lparr>processed_events := insert (Some ''Ev01'') (processed_events s),
       events_file := Some (insert (Some ''Ev01'') (processed_events s))\<rparr>"
  by (simp add: claim_def save_processed_events_def sample_request_def sample_world_def)

text \<open>
  Claim C1 says that two concurrent deliveries of one payload run the run-creation
  step exactly once, because check and claim form one critical section. In
  \<^verbatim>\<open>slack()\<close> the check of line 178 is made before \<^verbatim>\<open>event_lock\<close> is taken at line
  182. In the schedule below both threads make the check while the set is still empty,
  then take the lock one after the other: each of them claims the event and creates a
  run. The set ends up holding the event id once.
\<close>

theorem both_deliveries_create_a_run:
  "run_creations (threads (run [0, 1, 0, 0, 0, 1, 1, 1] two_deliveries))
     = [CreateRun ''hi'', CreateRun ''hi'']
   \<and> processed_events (srv_store (run [0, 1, 0, 0, 0, 1, 1, 1] two_deliveries))
     = {Some ''Ev01''}"
  by (simp add: two_deliveries_def step_def set_pc_def sample_thread_def execute_sample
      before_lock_sample claim_sample empty_store_def)

lemma one_after_the_other:
  "run_creations (threads (run [0, 0, 0, 0, 1] two_deliveries)) = [CreateRun ''hi'']"
  by (simp add: two_deliveries_def step_def set_pc_def sample_thread_def execute_sample
      before_lock_sample claim_sample empty_store_def)

text \<open>
  Claim C2. A request that is neither a handshake nor a retry and whose event id is
  already in the set of processed events gets the acknowledgment ``Event already
  processed''; the handler makes no call to the backend or the chat platform, and the
  store (the set and the file) is left as it was.
\<close>

theorem redelivery_acknowledged:
  assumes "payload_type req \<noteq> Some ''url_verification''"
    and "\<not> truthy (retry_num req)"
    and "event_id req \<in> processed_events s"
  shows "slack w req s
         = (s, Some (Inr (StatusReply ''ok'' (Some ''Event already processed'')), []))"
  using assms by (simp add: slack_def before_lock_def)

theorem redelivery_acknowledged_witness:
  "payload_type sample_request \<noteq> Some ''url_verification''
   \<and> \<not> truthy (retry_num sample_request)
   \<and> event_id sample_request \<in> processed_events (empty_store\<lparr>processed_events := {Some ''Ev01''}\<rparr>)
   \<and> slack sample_world sample_request (empty_store\<lparr>processed_events := {Some ''Ev01''}\<rparr>)
       = (empty_store\<lparr>processed_events := {Some ''Ev01''}\<rparr>,
          Some (Inr (StatusReply ''ok'' (Some ''Event already processed'')), []))"
  using redelivery_acknowledged [of sample_request "empty_store\<lparr>processed_events := {Some ''Ev01''}\<rparr>" sample_world]
  by (simp add: sample_request_def truthy_def)

lemma claim_keeps: "processed_events (claim w req s) = insert (event_id req) (processed_events s)"
  by (simp add: claim_def save_processed_events_def)

lemma slack_keeps: "e \<in> processed_events s \<Longrightarrow> e \<in> processed_events (fst (slack w req s))"
  by (simp add: slack_def claim_keeps split: option.splits)

lemma serve_keeps: "e \<in> processed_events s \<Longrightarrow> e \<in> processed_events (serve calls s)"
proof (induction calls arbitrary: s)
  case Nil
  then show ?case by simp
next
  case (Cons c calls)
  obtain w req where c: "c = (w, req)" by (cases c)
  from Cons.prems have "e \<in> processed_events (fst (slack w req s))" by (rule slack_keeps)
  then have "e \<in> processed_events (serve calls (fst (slack w req s)))" by (rule Cons.IH)
  with c show ?case by simp
qed

lemma set_pc_store [simp]: "srv_store (set_pc i p srv) = srv_store srv"
  by (simp add: set_pc_def)

lemma step_keeps:
  "e \<in> processed_events (srv_store srv) \<Longrightarrow> e \<in> processed_events (srv_store (step i srv))"
  by (simp add: step_def Let_def claim_keeps split: pc.splits option.splits)

lemma run_keeps:
  "e \<in> processed_events (srv_store srv) \<Longrightarrow> e \<in> processed_events (srv_store (run schedule srv))"
  by (induction schedule arbitrary: srv) (simp_all add: step_keeps)

text \<open>
  Claim C3. An event id that is in the set of processed events is still in it after the
  handler has run, whatever the request and whatever the outside answers (failed run
  creation, a run that does not complete, a malformed reply, any exception, a handler
  that never returns); the same holds after any sequence of requests and after any
  interleaving of concurrent requests. No path of the handler removes an id.
\<close>

theorem processed_events_never_shrink:
  assumes "e \<in> processed_events s"
  shows "e \<in> processed_events (fst (slack w req s))
       \<and> e \<in> processed_events (serve calls s)
       \<and> e \<in> processed_events
             (srv_store (run schedule \<lparr>srv_store = s, lock_held = l, threads = ths\<rparr>))"
  using assms slack_keeps [of e s w req] serve_keeps [of e s calls]
    run_keeps [of e "\<lparr>srv_store = s, lock_held = l, threads = ths\<rparr>" schedule]
  by simp

theorem processed_events_never_shrink_witness:
  "Some ''Ev01'' \<in> processed_events (empty_store\<lparr>processed_events := {Some ''Ev01''}\<rparr>)
   \<and> Some ''Ev01'' \<in> processed_events
        (fst (slack (sample_world\<lparr>create_resp := CreateFault ''timed out''\<rparr>)
                (sample_request\<lparr>event_id := Some ''Ev02''\<rparr>)
                (empty_store\<lparr>processed_events := {Some ''Ev01''}\<rparr>)))
   \<and> Some ''Ev01'' \<in> processed_events
        (serve [(sample_world\<lparr>create_resp := CreateFault ''timed out''\<rparr>,
                 sample_request\<lparr>event_id := Some ''Ev02''\<rparr>)]
           (empty_store\<lparr>processed_events := {Some ''Ev01''}\<rparr>))
   \<and> Some ''Ev01'' \<in> processed_events
        (srv_store (run [0, 0, 0, 0]
           \<lparr>srv_store = empty_store\<lparr>processed_events := {Some ''Ev01''}\<rparr>,
            lock_held = False,
            threads = [sample_thread]\<rparr>))"
  using processed_events_never_shrink
    [of "Some ''Ev01''" "empty_store\<lparr>processed_events := {Some ''Ev01''}\<rparr>"
        "sample_world\<lparr>create_resp := CreateFault ''timed out''\<rparr>"
        "sample_request\<lparr>event_id := Some ''Ev02''\<rparr>"
        "[(sample_world\<lparr>create_resp := CreateFault ''timed out''\<rparr>,
           sample_request\<lparr>event_id := Some ''Ev02''\<rparr>)]"
        "[0, 0, 0, 0]" False "[sample_thread]"]
  by (simp add: empty_store_def)

lemma adds_weaken: "adds P m \<Longrightarrow> (\<And>c. P c \<Longrightarrow> Q c) \<Longrightarrow> adds Q m"
  unfolding adds_def by (meson list.pred_mono_strong)

lemma wait_grows:
  "wait_for_run_completion w tid tr = Some y \<Longrightarrow> \<exists>ext. snd y = tr @ ext"
proof (induction rule: wait_for_run_completion.raw_induct [rotated 1, consumes 1])
  case (1 loop w tid tr y)
  show ?case
  proof (cases "runs_resp w (length (filter is_ListRuns tr))")
    case (PollFault m)
    with 1(2) show ?thesis by auto
  next
    case (RunStatus st)
    show ?thesis
    proof (cases "st \<in> set [''completed'', ''failed'', ''incomplete'']")
      case True
      with 1(2) RunStatus show ?thesis by auto
    next
      case False
      with 1(2) RunStatus have "loop w tid (tr @ [ListRuns tid, Sleep]) = Some y"
        by simp
      from 1(1) [OF this] obtain ext where "snd y = (tr @ [ListRuns tid, Sleep]) @ ext" by blast
      then show ?thesis by simp
    qed
  qed
qed

lemma adds_wait: "adds (\<lambda>c. True) (wait_for_run_completion w tid)"
  unfolding adds_def using wait_grows by (fastforce simp: list_all_iff)

lemma adds_create_thread: "adds (\<lambda>c. True) (create_thread w text)"
  by (auto simp: adds_def create_thread_def list_all_iff split: create_response.splits if_splits)

lemma adds_get_thread_messages: "adds (\<lambda>c. True) (get_thread_messages w tid)"
  by (auto simp: adds_def get_thread_messages_def list_all_iff split: fetch_response.splits if_splits)

lemma adds_send_any: "adds (\<lambda>c. True) (send_gpt_response w ch ts text)"
  by (rule adds_weaken [OF adds_send_gpt_response]) simp

lemma adds_if: "adds P a \<Longrightarrow> adds P b \<Longrightarrow> adds P (if c then a else b)"
  by simp

lemma catch_bind_Inr:
  "m tr = Some (Inr y, t1) \<Longrightarrow> catch_io (bind_io m K) H tr = catch_io (K y) H t1"
  by (simp add: catch_io_def bind_io_def)

lemma after_call:
  assumes m: "m tr = Some (x, t1)"
    and K: "\<And>y. adds P (K y)" and H: "\<And>e. adds P (H e)"
    and eq: "catch_io (bind_io m K) H tr = Some (r, tr')"
  shows "\<exists>ext. tr' = t1 @ ext \<and> list_all P ext"
proof (cases x)
  case (Inl e)
  with m eq have "H e t1 = Some (r, tr')" by (simp add: catch_io_def bind_io_def)
  from addsD [OF H this] show ?thesis .
next
  case (Inr y)
  with m eq have "catch_io (K y) H t1 = Some (r, tr')" by (simp add: catch_bind_Inr)
  from addsD [OF adds_catch [OF K H] this] show ?thesis .
qed

lemma create_thread_call:
  "\<exists>x. create_thread w text tr = Some (x, tr @ [CreateRun text])"
  by (simp add: create_thread_def split: create_response.splits)

lemma get_thread_messages_call:
  "\<exists>x. get_thread_messages w tid tr = Some (x, tr @ [ListMessages tid])"
  by (simp add: get_thread_messages_def split: fetch_response.splits)

lemma execute_first_call:
  assumes "execute w req [] = Some (r, tr)"
  shows "\<exists>rest. tr = CreateRun (event_text req) # rest"
proof -
  obtain x where c: "create_thread w (event_text req) [] = Some (x, [CreateRun (event_text req)])"
    using create_thread_call [of w "event_text req" "[]"] by auto
  note eq = assms [unfolded execute_def try_body_def Let_def]
  have "\<exists>ext. tr = [CreateRun (event_text req)] @ ext \<and> list_all (\<lambda>c. True) ext"
    by (rule after_call [where P = "\<lambda>c. True" and m = "create_thread w (event_text req)", OF c _ _ eq])
       (intro adds_bind adds_if adds_wait adds_get_thread_messages adds_message_text
          adds_send_any adds_return)+
  then show ?thesis by auto
qed

lemma execute_after_completed:
  assumes c: "create_thread w (event_text req) [] = Some (Inr tid, t1)"
    and p: "wait_for_run_completion w tid t1 = Some (Inr ''completed'', t2)"
    and e: "execute w req [] = Some (r, tr)"
  shows "\<exists>ext. tr = (t2 @ [ListMessages tid]) @ ext \<and> list_all platform_call ext"
proof -
  obtain x where g: "get_thread_messages w tid t2 = Some (x, t2 @ [ListMessages tid])"
    using get_thread_messages_call [of w tid t2] by auto
  note eq = e [unfolded execute_def try_body_def Let_def]
  from eq have eq2: "catch_io
     (bind_io (get_thread_messages w tid)
        (\<lambda>messages.
            bind_io (message_text messages)
              (\<lambda>last_message.
                  bind_io (send_gpt_response w (event_channel req) (event_ts req) last_message)
                    (\<lambda>_. return_io (StatusReply ''ok'' None)))))
     (\<lambda>e. bind_io (send_gpt_response w (event_channel req) (event_ts req) (''Error: '' @ str_exn e))
            (\<lambda>_. return_io (StatusReply ''error'' (Some (''Error: '' @ str_exn e)))))
     t2 = Some (r, tr)"
    by (simp add: catch_bind_Inr [where m = "create_thread w (event_text req)", OF c]
        catch_bind_Inr [where m = "wait_for_run_completion w tid", OF p])
  show ?thesis
    by (rule after_call [where P = platform_call and m = "get_thread_messages w tid", OF g _ _ eq2])
       (intro adds_bind adds_message_text adds_send_gpt_response adds_return)+
qed


section \<open>Polling, notifying and the order of calls\<close>

text \<open>
  Claim C5, amended. The polling loop returns at the first observed status that is one of
  \<^verbatim>\<open>completed\<close>, \<^verbatim>\<open>failed\<close>, \<^verbatim>\<open>incomplete\<close>, having polled once for each status
  observed and slept after each earlier one; every other status, \<^verbatim>\<open>queued\<close> and
  \<^verbatim>\<open>in_progress\<close> as well as any further value such as \<^verbatim>\<open>cancelled\<close>, only makes it
  sleep and poll again.
\<close>

theorem wait_for_run_completion_first_terminal:
  assumes "\<forall>k<n. \<exists>s. runs_resp w (length (filter is_ListRuns tr) + k) = RunStatus s
                      \<and> s \<notin> set [''completed'', ''failed'', ''incomplete'']"
    and "runs_resp w (length (filter is_ListRuns tr) + n) = RunStatus s"
    and "s \<in> set [''completed'', ''failed'', ''incomplete'']"
  shows "wait_for_run_completion w thread_id tr
         = Some (Inr s, tr @ concat (replicate n [ListRuns thread_id, Sleep]) @ [ListRuns thread_id])"
  using assms by (rule wait_returns)

theorem wait_for_run_completion_first_terminal_witness:
  "runs_resp four_polls_world 3 = RunStatus ''completed''
   \<and> ''completed'' \<in> set [''completed'', ''failed'', ''incomplete'']
   \<and> wait_for_run_completion four_polls_world (Some ''thread_1'') []
       = Some (Inr ''completed'',
               [ListRuns (Some ''thread_1''), Sleep, ListRuns (Some ''thread_1''), Sleep,
                ListRuns (Some ''thread_1''), Sleep, ListRuns (Some ''thread_1'')])"
proof -
  have a: "\<forall>k<3. \<exists>s. runs_resp four_polls_world (length (filter is_ListRuns []) + k) = RunStatus s
               \<and> s \<notin> set [''completed'', ''failed'', ''incomplete'']"
    by (simp add: four_polls_world_def)
  have b: "runs_resp four_polls_world (length (filter is_ListRuns []) + 3) = RunStatus ''completed''"
    by (simp add: four_polls_world_def)
  have c: "''completed'' \<in> set [''completed'', ''failed'', ''incomplete'']" by simp
  from wait_for_run_completion_first_terminal [OF a b c, of "Some ''thread_1''"] b
  show ?thesis by (simp add: numeral_3_eq_3)
qed

text \<open>
  The claim as it stands fails on the status \<^verbatim>\<open>cancelled\<close>, which is neither
  \<^verbatim>\<open>queued\<close> nor \<^verbatim>\<open>in_progress\<close>: the loop does not return on observing it, but
  sleeps, polls again and returns the \<^verbatim>\<open>completed\<close> of the second poll.
\<close>

theorem wait_for_run_completion_cancelled:
  "wait_for_run_completion cancelled_world (Some ''thread_1'') []
     = Some (Inr ''completed'',
             [ListRuns (Some ''thread_1''), Sleep, ListRuns (Some ''thread_1'')])"
  using wait_returns [of 1 cancelled_world "[]" "''completed''" "Some ''thread_1''"]
  by (simp add: cancelled_world_def)


lemma send_suppressed:
  assumes "format_links text = Some ft"
    and "get_last_message w ch ts tr = Some (Inr (Some ft), tr1)"
  shows "send_gpt_response w ch ts text tr = Some (Inr (), tr1)"
  using assms by (simp add: send_gpt_response_def bind_io_def return_io_def)

lemma send_posts:
  assumes "format_links text = Some ft"
    and "get_last_message w ch ts tr = Some (Inr lm, tr1)" and "lm \<noteq> Some ft"
  shows "\<exists>r rest. send_gpt_response w ch ts text tr
                   = Some (r, tr1 @ ChatPostMessage ch ts ft # rest)"
  using assms
  by (cases "post_resp w (length (filter is_ChatPostMessage tr1))";
      cases "post_resp w (Suc (length (filter is_ChatPostMessage tr1)))")
     (simp_all add: send_gpt_response_def io_defs chat_postMessage_def)

lemma send_alerts:
  assumes "format_links text = Some ft"
    and "get_last_message w ch ts tr = Some (Inr lm, tr1)" and "lm \<noteq> Some ft"
    and "post_resp w (length (filter is_ChatPostMessage tr1)) = PostApiError msg err"
    and "post_resp w (Suc (length (filter is_ChatPostMessage tr1))) = Posted"
  shows "send_gpt_response w ch ts text tr
         = Some (Inr (), tr1 @ [ChatPostMessage ch ts ft,
                   ChatPostMessage ch ts (''<@'' @ admin_member_id w @ ''> ''
                                          @ ''Error sending message to Slack: '' @ err)])"
  using assms by (simp add: send_gpt_response_def io_defs chat_postMessage_def)

text \<open>
  Claim C7, amended. For a candidate text on which the formatter returns: if the last
  message of the destination thread equals the formatted candidate exactly, the
  notifier makes no send call and returns; if the lookup gives a different last
  message, finds no messages, or fails with a platform API error (which counts as no
  last message), the formatted candidate is sent. What happens when the lookup raises
  an exception of another kind is not part of this statement.
\<close>

theorem send_gpt_response_suppression:
  assumes "format_links text = Some ft"
  shows "(replies_resp w (length (filter is_ConversationsReplies tr)) = Replies ms
            \<and> ms \<noteq> [] \<and> last ms = ft
          \<longrightarrow> send_gpt_response w ch ts text tr = Some (Inr (), tr @ [ConversationsReplies ch ts]))
       \<and> ((replies_resp w (length (filter is_ConversationsReplies tr)) = Replies ms
              \<and> (ms = [] \<or> last ms \<noteq> ft))
            \<or> replies_resp w (length (filter is_ConversationsReplies tr)) = RepliesApiError msg err
          \<longrightarrow> (\<exists>r rest. send_gpt_response w ch ts text tr
                 = Some (r, (tr @ [ConversationsReplies ch ts]) @ ChatPostMessage ch ts ft # rest)))"
proof (intro conjI impI)
  assume "replies_resp w (length (filter is_ConversationsReplies tr)) = Replies ms
            \<and> ms \<noteq> [] \<and> last ms = ft"
  then have "get_last_message w ch ts tr = Some (Inr (Some ft), tr @ [ConversationsReplies ch ts])"
    by (simp add: get_last_message_cases)
  with assms show "send_gpt_response w ch ts text tr = Some (Inr (), tr @ [ConversationsReplies ch ts])"
    by (rule send_suppressed)
next
  assume "(replies_resp w (length (filter is_ConversationsReplies tr)) = Replies ms
              \<and> (ms = [] \<or> last ms \<noteq> ft))
            \<or> replies_resp w (length (filter is_ConversationsReplies tr)) = RepliesApiError msg err"
  then obtain lm where "get_last_message w ch ts tr = Some (Inr lm, tr @ [ConversationsReplies ch ts])"
    and "lm \<noteq> Some ft"
    by (auto simp: get_last_message_cases)
  with assms show "\<exists>r rest. send_gpt_response w ch ts text tr
                 = Some (r, (tr @ [ConversationsReplies ch ts]) @ ChatPostMessage ch ts ft # rest)"
    by (rule send_posts)
qed

text \<open>
  The claim as it stands fails when the lookup raises an exception that is not a
  \<^verbatim>\<open>SlackApiError\<close>: \<^verbatim>\<open>get_last_message\<close> does not catch it, it leaves the notifier,
  and the candidate is not sent although no last message equal to it was seen.
\<close>

theorem send_gpt_response_lookup_raises:
  "send_gpt_response lookup_fault_world (Some ''C1'') (Some ''17.1'') ''hello'' []
     = Some (Inl (Exception ''connection refused''),
             [ConversationsReplies (Some ''C1'') (Some ''17.1'')])"
  by (simp add: send_gpt_response_def format_links_hello get_last_message_cases bind_io_def
      lookup_fault_world_def)


lemma wait_adds_polls:
  "wait_for_run_completion w tid tr = Some y \<Longrightarrow>
   \<exists>ext. snd y = tr @ ext \<and> list_all (\<lambda>c. is_ListRuns c \<or> is_Sleep c) ext"
proof (induction rule: wait_for_run_completion.raw_induct [rotated 1, consumes 1])
  case (1 loop w tid tr y)
  show ?case
  proof (cases "runs_resp w (length (filter is_ListRuns tr))")
    case (PollFault m)
    with 1(2) show ?thesis by auto
  next
    case (RunStatus st)
    show ?thesis
    proof (cases "st \<in> set [''completed'', ''failed'', ''incomplete'']")
      case True
      with 1(2) RunStatus show ?thesis by auto
    next
      case False
      with 1(2) RunStatus have "loop w tid (tr @ [ListRuns tid, Sleep]) = Some y"
        by simp
      from 1(1) [OF this] obtain ext where "snd y = (tr @ [ListRuns tid, Sleep]) @ ext"
        and "list_all (\<lambda>c. is_ListRuns c \<or> is_Sleep c) ext" by blast
      then have "snd y = tr @ ([ListRuns tid, Sleep] @ ext)
                 \<and> list_all (\<lambda>c. is_ListRuns c \<or> is_Sleep c) ([ListRuns tid, Sleep] @ ext)"
        by simp
      then show ?thesis by blast
    qed
  qed
qed

lemma no_platform_calls_while_polling:
  assumes "wait_for_run_completion w tid [CreateRun t] = Some (r, tr2)"
  shows "filter is_ConversationsReplies tr2 = [] \<and> filter is_ChatPostMessage tr2 = []"
proof -
  from wait_adds_polls [OF assms] obtain ext where
    "tr2 = [CreateRun t] @ ext" and "list_all (\<lambda>c. is_ListRuns c \<or> is_Sleep c) ext"
    by auto
  then show ?thesis
    by (auto simp: filter_empty_conv list_all_iff call.disc_eq_case split: call.splits)
qed

text \<open>
  Claim C4, amended. When the send of the reply fails at the chat platform with an API
  error, the notifier sends a second message that tags the administrator and carries the
  failure description; once that message is accepted the notifier returns normally. The
  failure is not reported to the caller: after a completed run the handler still
  answers with status \<^verbatim>\<open>ok\<close>.
\<close>

theorem send_failure_alerts_admin_and_returns_ok:
  assumes "payload_type req \<noteq> Some ''url_verification''" and "\<not> truthy (retry_num req)"
    and "event_id req \<notin> processed_events s"
    and c: "create_resp w = CreateReply 200 body thread_id"
    and p: "wait_for_run_completion w thread_id [CreateRun (event_text req)]
            = Some (Inr ''completed'', tr2)"
    and m: "messages_resp w = MessagesReply 200 mbody (TextValue v)"
    and f: "format_links v = Some ft"
    and l: "(replies_resp w 0 = Replies ms \<and> (ms = [] \<or> last ms \<noteq> ft))
            \<or> replies_resp w 0 = RepliesApiError lmsg lerr"
    and p0: "post_resp w 0 = PostApiError msg err" and p1: "post_resp w 1 = Posted"
  shows "snd (slack w req s)
         = Some (Inr (StatusReply ''ok'' None),
                 tr2 @ [ListMessages thread_id,
                        ConversationsReplies (event_channel req) (event_ts req),
                        ChatPostMessage (event_channel req) (event_ts req) ft,
                        ChatPostMessage (event_channel req) (event_ts req)
                          (''<@'' @ admin_member_id w @ ''> ''
                           @ ''Error sending message to Slack: '' @ err)])"
proof -
  let ?ch = "event_channel req" and ?ts = "event_ts req"
  let ?t9 = "tr2 @ [ListMessages thread_id]"
  have cr: "create_thread w (event_text req) [] = Some (Inr thread_id, [CreateRun (event_text req)])"
    using c by (simp add: create_thread_def)
  have g: "get_thread_messages w thread_id tr2 = Some (Inr (TextValue v), ?t9)"
    using m by (simp add: get_thread_messages_def)
  note np = no_platform_calls_while_polling [OF p]
  from l np obtain lm where
    lk: "get_last_message w ?ch ?ts ?t9 = Some (Inr lm, ?t9 @ [ConversationsReplies ?ch ?ts])"
    and ne: "lm \<noteq> Some ft"
    by (auto simp: get_last_message_cases)
  have sd: "send_gpt_response w ?ch ?ts v ?t9
        = Some (Inr (), (?t9 @ [ConversationsReplies ?ch ?ts]) @
                 [ChatPostMessage ?ch ?ts ft,
                  ChatPostMessage ?ch ?ts (''<@'' @ admin_member_id w @ ''> ''
                                          @ ''Error sending message to Slack: '' @ err)])"
    using np p0 p1 by (intro send_alerts [OF f lk ne]) simp_all
  have "execute w req [] = Some (Inr (StatusReply ''ok'' None),
           (?t9 @ [ConversationsReplies ?ch ?ts]) @
                 [ChatPostMessage ?ch ?ts ft,
                  ChatPostMessage ?ch ?ts (''<@'' @ admin_member_id w @ ''> ''
                                          @ ''Error sending message to Slack: '' @ err)])"
    unfolding execute_def try_body_def
    by (simp add: io_defs cr p g message_text_def sd)
  with assms(1-3) show ?thesis by (simp add: slack_def before_lock_def)
qed


theorem send_gpt_response_suppression_witness:
  "format_links ''hello'' = Some ''hello''
   \<and> send_gpt_response duplicate_world (Some ''C1'') (Some ''17.1'') ''hello'' []
       = Some (Inr (), [ConversationsReplies (Some ''C1'') (Some ''17.1'')])
   \<and> (\<exists>r rest. send_gpt_response sample_world (Some ''C1'') (Some ''17.1'') ''hello'' []
         = Some (r, [ConversationsReplies (Some ''C1'') (Some ''17.1''),
                     ChatPostMessage (Some ''C1'') (Some ''17.1'') ''hello''] @ rest))"
  using send_gpt_response_suppression [OF format_links_hello,
          of duplicate_world "[]" "[''hi'', ''hello'']" "Some ''C1''" "Some ''17.1''"]
    send_gpt_response_suppression [OF format_links_hello,
          of sample_world "[]" "[]" "Some ''C1''" "Some ''17.1''"]
  by (simp add: format_links_hello duplicate_world_def sample_world_def)

text \<open>
  The claim as it stands fails on a completed run whose reply the platform refuses: the
  alert is posted, and the handler answers with status \<^verbatim>\<open>ok\<close>.
\<close>

theorem send_failure_answers_ok:
  "slack send_failure_world sample_request empty_store
     = (\<lparr>processed_events = {Some ''Ev01''}, events_file = Some {Some ''Ev01''}\<rparr>,
        Some (Inr (StatusReply ''ok'' None),
              [CreateRun ''hi'', ListRuns (Some ''thread_1''), ListMessages (Some ''thread_1''),
               ConversationsReplies (Some ''C1'') (Some ''17.1''),
               ChatPostMessage (Some ''C1'') (Some ''17.1'') ''hello'',
               ChatPostMessage (Some ''C1'') (Some ''17.1'')
                 ''<@U0ADMIN> Error sending message to Slack: channel_not_found'']))"
proof -
  have c: "create_thread send_failure_world (event_text sample_request) []
           = Some (Inr (Some ''thread_1''), [CreateRun ''hi''])"
    by (simp add: create_thread_def send_failure_world_def sample_world_def sample_request_def)
  have p: "wait_for_run_completion send_failure_world (Some ''thread_1'') [CreateRun ''hi'']
           = Some (Inr ''completed'', [CreateRun ''hi'', ListRuns (Some ''thread_1'')])"
    using wait_returns [of 0 send_failure_world "[CreateRun ''hi'']" "''completed''" "Some ''thread_1''"]
    by (simp add: send_failure_world_def sample_world_def)
  have e: "execute send_failure_world sample_request [] =
        Some (Inr (StatusReply ''ok'' None),
              [CreateRun ''hi'', ListRuns (Some ''thread_1''), ListMessages (Some ''thread_1''),
               ConversationsReplies (Some ''C1'') (Some ''17.1''),
               ChatPostMessage (Some ''C1'') (Some ''17.1'') ''hello'',
               ChatPostMessage (Some ''C1'') (Some ''17.1'')
                 ''<@U0ADMIN> Error sending message to Slack: channel_not_found''])"
    unfolding execute_def try_body_def
    by (simp add: io_defs c p)
       (simp add: get_thread_messages_def message_text_def send_gpt_response_def
          get_last_message_def conversations_replies_def chat_postMessage_def io_defs
          format_links_hello send_failure_world_def sample_world_def sample_request_def)
  show ?thesis
    by (simp add: slack_def before_lock_def e claim_def save_processed_events_def)
       (simp add: sample_request_def truthy_def empty_store_def send_failure_world_def
          sample_world_def)
qed

lemma wait_four_polls:
  assumes "runs_resp w 0 = RunStatus ''queued''" and "runs_resp w 1 = RunStatus ''in_progress''"
    and "runs_resp w 2 = RunStatus ''in_progress''" and "runs_resp w 3 = RunStatus ''completed''"
  shows "wait_for_run_completion w tid [CreateRun t]
         = Some (Inr ''completed'',
                 [CreateRun t, ListRuns tid, Sleep, ListRuns tid, Sleep, ListRuns tid, Sleep,
                  ListRuns tid])"
proof -
  have a: "\<forall>k<3. \<exists>s. runs_resp w (length (filter is_ListRuns [CreateRun t]) + k) = RunStatus s
                      \<and> s \<notin> set [''completed'', ''failed'', ''incomplete'']"
  proof (intro allI impI)
    fix k :: nat assume "k < 3"
    then have "k = 0 \<or> k = 1 \<or> k = 2" by arith
    with assms show "\<exists>s. runs_resp w (length (filter is_ListRuns [CreateRun t]) + k) = RunStatus s
                      \<and> s \<notin> set [''completed'', ''failed'', ''incomplete'']"
      by auto
  qed
  from wait_returns [OF a, of "''completed''" tid] assms(4) show ?thesis
    by (simp add: numeral_3_eq_3)
qed

lemma four_polls_facts:
  "runs_resp four_polls_world 0 = RunStatus ''queued''"
  "runs_resp four_polls_world 1 = RunStatus ''in_progress''"
  "runs_resp four_polls_world 2 = RunStatus ''in_progress''"
  "runs_resp four_polls_world 3 = RunStatus ''completed''"
  "create_resp four_polls_world = CreateReply 200 ''{}'' (Some ''thread_1'')"
  "messages_resp four_polls_world = MessagesReply 200 ''{}'' (TextValue ''hello'')"
  "replies_resp four_polls_world = (\<lambda>k. Replies [])"
  "post_resp four_polls_world = (\<lambda>k. Posted)"
  by (simp_all add: four_polls_world_def sample_world_def)

lemma sample_request_facts:
  "payload_type sample_request \<noteq> Some ''url_verification''"
  "\<not> truthy (retry_num sample_request)"
  "event_id sample_request \<notin> processed_events empty_store"
  "event_text sample_request = ''hi''"
  "event_channel sample_request = Some ''C1''"
  "event_ts sample_request = Some ''17.1''"
  by (simp_all add: sample_request_def truthy_def empty_store_def)

lemma execute_four_polls:
  "execute four_polls_world sample_request [] =
     Some (Inr (StatusReply ''ok'' None),
           [CreateRun ''hi'', ListRuns (Some ''thread_1''), Sleep, ListRuns (Some ''thread_1''),
            Sleep, ListRuns (Some ''thread_1''), Sleep, ListRuns (Some ''thread_1''),
            ListMessages (Some ''thread_1''),
            ConversationsReplies (Some ''C1'') (Some ''17.1''),
            ChatPostMessage (Some ''C1'') (Some ''17.1'') ''hello''])"
proof -
  have c: "create_thread four_polls_world (event_text sample_request) []
           = Some (Inr (Some ''thread_1''), [CreateRun ''hi''])"
    by (simp add: create_thread_def four_polls_facts sample_request_facts)
  note p = wait_four_polls [OF four_polls_facts(1-4), of "Some ''thread_1''" "''hi''"]
  show ?thesis
    unfolding execute_def try_body_def
    by (simp add: io_defs c p)
       (simp add: get_thread_messages_def message_text_def send_gpt_response_def
          get_last_message_def conversations_replies_def chat_postMessage_def io_defs
          format_links_hello four_polls_facts sample_request_facts)
qed

theorem send_failure_alerts_admin_and_returns_ok_witness:
  "snd (slack slow_send_failure_world sample_request empty_store)
     = Some (Inr (StatusReply ''ok'' None),
           [CreateRun ''hi'', ListRuns (Some ''thread_1''), Sleep, ListRuns (Some ''thread_1''),
            Sleep, ListRuns (Some ''thread_1''), Sleep, ListRuns (Some ''thread_1''),
            ListMessages (Some ''thread_1''),
            ConversationsReplies (Some ''C1'') (Some ''17.1''),
            ChatPostMessage (Some ''C1'') (Some ''17.1'') ''hello'',
            ChatPostMessage (Some ''C1'') (Some ''17.1'')
              ''<@U0ADMIN> Error sending message to Slack: channel_not_found''])"
proof -
  let ?w = slow_send_failure_world
  have w: "runs_resp ?w 0 = RunStatus ''queued''" "runs_resp ?w 1 = RunStatus ''in_progress''"
    "runs_resp ?w 2 = RunStatus ''in_progress''" "runs_resp ?w 3 = RunStatus ''completed''"
    and c: "create_resp ?w = CreateReply 200 ''{}'' (Some ''thread_1'')"
    and m: "messages_resp ?w = MessagesReply 200 ''{}'' (TextValue ''hello'')"
    and l: "(replies_resp ?w 0 = Replies [] \<and> ([] = [] \<or> last [] \<noteq> ''hello''))
            \<or> replies_resp ?w 0 = RepliesApiError [] []"
    and p0: "post_resp ?w 0
             = PostApiError ''The request to the Slack API failed.'' ''channel_not_found''"
    and p1: "post_resp ?w 1 = Posted"
    and a: "admin_member_id ?w = ''U0ADMIN''"
    by (simp_all add: slow_send_failure_world_def send_failure_world_def four_polls_world_def
        sample_world_def)
  note p = wait_four_polls [OF w, of "Some ''thread_1''" "event_text sample_request"]
  from send_failure_alerts_admin_and_returns_ok
         [OF sample_request_facts(1-3) c p m format_links_hello l p0 p1]
  show ?thesis by (simp add: a sample_request_facts)
qed

section \<open>The handler up to the fetch, and on a payload without an event id\<close>

lemma execute_from_fetch:
  assumes cr: "create_thread w (event_text req) [] = Some (Inr tid, t1)"
    and p: "wait_for_run_completion w tid t1 = Some (Inr ''completed'', t2)"
  shows "execute w req []
         = catch_io (bind_io (get_thread_messages w tid) (on_messages w req))
             (on_exception w req) t2"
  unfolding execute_def try_body_def on_messages_def on_exception_def
  by (simp add: catch_bind_Inr [where m = "create_thread w (event_text req)", OF cr]
        catch_bind_Inr [where m = "wait_for_run_completion w tid", OF p])

lemma adds_on_messages: "adds platform_call (on_messages w req m)"
  unfolding on_messages_def
  by (intro adds_bind adds_message_text adds_send_gpt_response adds_return)

lemma adds_on_exception: "adds platform_call (on_exception w req e)"
  unfolding on_exception_def Let_def
  by (intro adds_bind adds_send_gpt_response adds_return)

lemma send_gpt_response_returns:
  "format_links text = Some ft \<Longrightarrow> send_gpt_response w ch ts text tr \<noteq> None"
  by (cases "post_resp w (length (filter is_ChatPostMessage (tr @ [ConversationsReplies ch ts])))";
      cases "post_resp w (Suc (length (filter is_ChatPostMessage (tr @ [ConversationsReplies ch ts]))))")
     (simp_all add: send_gpt_response_def get_last_message_cases io_defs chat_postMessage_def
        split: replies_response.splits)

text \<open>
  Claim C6. When the run is created and the successive polls observe \<^verbatim>\<open>queued\<close>,
  \<^verbatim>\<open>in_progress\<close>, \<^verbatim>\<open>in_progress\<close>, \<^verbatim>\<open>completed\<close>, the polling returns
  \<^verbatim>\<open>completed\<close> after these four polls; the fetch of the messages is issued next,
  with the run creation and the four polls before it in the log; and what the handler
  does from there is what lines 197-219 do with the fetched messages, which call the
  chat platform only and fail to return only where the formatter does. So a handler
  that returns has made exactly one fetch, after the fourth poll and therefore after the
  third; and this part of the handler is reached, with the fetch issued, whether or not
  the handler returns afterwards.
\<close>

theorem one_fetch_after_the_polls:
  assumes "payload_type req \<noteq> Some ''url_verification''" and "\<not> truthy (retry_num req)"
    and "event_id req \<notin> processed_events s"
    and c: "create_resp w = CreateReply 200 body thread_id"
    and p: "runs_resp w 0 = RunStatus ''queued''" "runs_resp w 1 = RunStatus ''in_progress''"
      "runs_resp w 2 = RunStatus ''in_progress''" "runs_resp w 3 = RunStatus ''completed''"
  shows "wait_for_run_completion w thread_id [CreateRun (event_text req)]
           = Some (Inr ''completed'',
                   [CreateRun (event_text req), ListRuns thread_id, Sleep, ListRuns thread_id,
                    Sleep, ListRuns thread_id, Sleep, ListRuns thread_id])
       \<and> (\<exists>x. get_thread_messages w thread_id
                  [CreateRun (event_text req), ListRuns thread_id, Sleep, ListRuns thread_id,
                   Sleep, ListRuns thread_id, Sleep, ListRuns thread_id]
               = Some (x, [CreateRun (event_text req), ListRuns thread_id, Sleep,
                           ListRuns thread_id, Sleep, ListRuns thread_id, Sleep,
                           ListRuns thread_id, ListMessages thread_id]))
       \<and> snd (slack w req s)
           = catch_io (bind_io (get_thread_messages w thread_id) (on_messages w req))
               (on_exception w req)
               [CreateRun (event_text req), ListRuns thread_id, Sleep, ListRuns thread_id,
                Sleep, ListRuns thread_id, Sleep, ListRuns thread_id]
       \<and> (\<forall>m. adds platform_call (on_messages w req m))
       \<and> (\<forall>e. adds platform_call (on_exception w req e))
       \<and> (\<forall>text ft tr. format_links text = Some ft \<longrightarrow>
             send_gpt_response w (event_channel req) (event_ts req) text tr \<noteq> None)
       \<and> (\<forall>r tr. snd (slack w req s) = Some (r, tr) \<longrightarrow>
             (\<exists>ext. tr = [CreateRun (event_text req), ListRuns thread_id, Sleep,
                          ListRuns thread_id, Sleep, ListRuns thread_id, Sleep,
                          ListRuns thread_id, ListMessages thread_id] @ ext
                  \<and> list_all platform_call ext)
             \<and> length (filter is_ListMessages tr) = 1)"
proof -
  let ?p8 = "[CreateRun (event_text req), ListRuns thread_id, Sleep, ListRuns thread_id,
              Sleep, ListRuns thread_id, Sleep, ListRuns thread_id]"
  have cr: "create_thread w (event_text req) [] = Some (Inr thread_id, [CreateRun (event_text req)])"
    using c by (simp add: create_thread_def)
  note wt = wait_four_polls [OF p, of thread_id "event_text req"]
  have ex: "snd (slack w req s) = execute w req []"
    using assms(1-3) by (simp add: slack_def before_lock_def)
  have g: "\<exists>x. get_thread_messages w thread_id ?p8 = Some (x, ?p8 @ [ListMessages thread_id])"
    by (rule get_thread_messages_call)
  have lk: "snd (slack w req s)
           = catch_io (bind_io (get_thread_messages w thread_id) (on_messages w req))
               (on_exception w req) ?p8"
    unfolding ex by (rule execute_from_fetch [OF cr wt])
  have rt: "(\<exists>ext. tr = (?p8 @ [ListMessages thread_id]) @ ext \<and> list_all platform_call ext)
             \<and> length (filter is_ListMessages tr) = 1"
    if "snd (slack w req s) = Some (r, tr)" for r tr
  proof -
    from that ex have e: "execute w req [] = Some (r, tr)" by simp
    from execute_after_completed [OF cr wt e]
    obtain ext where ext: "tr = (?p8 @ [ListMessages thread_id]) @ ext"
      and pc: "list_all platform_call ext"
      by auto
    from pc have "filter is_ListMessages ext = []"
      by (auto simp: filter_empty_conv list_all_iff platform_call_def call.disc_eq_case
          split: call.splits)
    with ext pc show ?thesis by simp
  qed
  from wt g lk rt adds_on_messages adds_on_exception send_gpt_response_returns
  show ?thesis by simp
qed


lemma runaway_reply: "format_links ''[a)b]'' = None"
proof (rule runaway_never_returns)
  show "runaway ''[a)b]''"
    unfolding runaway_def
    by (intro exI [of _ "[]"] exI [of _ "''a''"] exI [of _ "''b''"]) simp
qed

theorem one_fetch_after_the_polls_witness:
  "snd (slack four_polls_world sample_request empty_store)
     = Some (Inr (StatusReply ''ok'' None),
           [CreateRun ''hi'', ListRuns (Some ''thread_1''), Sleep, ListRuns (Some ''thread_1''),
            Sleep, ListRuns (Some ''thread_1''), Sleep, ListRuns (Some ''thread_1''),
            ListMessages (Some ''thread_1''),
            ConversationsReplies (Some ''C1'') (Some ''17.1''),
            ChatPostMessage (Some ''C1'') (Some ''17.1'') ''hello''])
   \<and> length (filter is_ListMessages
        [CreateRun ''hi'', ListRuns (Some ''thread_1''), Sleep, ListRuns (Some ''thread_1''),
            Sleep, ListRuns (Some ''thread_1''), Sleep, ListRuns (Some ''thread_1''),
            ListMessages (Some ''thread_1''),
            ConversationsReplies (Some ''C1'') (Some ''17.1''),
            ChatPostMessage (Some ''C1'') (Some ''17.1'') ''hello'']) = 1
   \<and> wait_for_run_completion runaway_reply_world (Some ''thread_1'') [CreateRun ''hi'']
       = Some (Inr ''completed'',
           [CreateRun ''hi'', ListRuns (Some ''thread_1''), Sleep, ListRuns (Some ''thread_1''),
            Sleep, ListRuns (Some ''thread_1''), Sleep, ListRuns (Some ''thread_1'')])
   \<and> get_thread_messages runaway_reply_world (Some ''thread_1'')
           [CreateRun ''hi'', ListRuns (Some ''thread_1''), Sleep, ListRuns (Some ''thread_1''),
            Sleep, ListRuns (Some ''thread_1''), Sleep, ListRuns (Some ''thread_1'')]
       = Some (Inr (TextValue ''[a)b]''),
           [CreateRun ''hi'', ListRuns (Some ''thread_1''), Sleep, ListRuns (Some ''thread_1''),
            Sleep, ListRuns (Some ''thread_1''), Sleep, ListRuns (Some ''thread_1''),
            ListMessages (Some ''thread_1'')])
   \<and> snd (slack runaway_reply_world sample_request empty_store) = None"
proof -
  let ?p8 = "[CreateRun ''hi'', ListRuns (Some ''thread_1''), Sleep, ListRuns (Some ''thread_1''),
            Sleep, ListRuns (Some ''thread_1''), Sleep, ListRuns (Some ''thread_1'')]"
  have r: "snd (slack four_polls_world sample_request empty_store)
     = Some (Inr (StatusReply ''ok'' None),
           ?p8 @ [ListMessages (Some ''thread_1''),
            ConversationsReplies (Some ''C1'') (Some ''17.1''),
            ChatPostMessage (Some ''C1'') (Some ''17.1'') ''hello''])"
    by (simp add: slack_def before_lock_def sample_request_facts execute_four_polls)
  have w: "runs_resp runaway_reply_world 0 = RunStatus ''queued''"
    "runs_resp runaway_reply_world 1 = RunStatus ''in_progress''"
    "runs_resp runaway_reply_world 2 = RunStatus ''in_progress''"
    "runs_resp runaway_reply_world 3 = RunStatus ''completed''"
    and c: "create_resp runaway_reply_world = CreateReply 200 ''{}'' (Some ''thread_1'')"
    and m: "messages_resp runaway_reply_world = MessagesReply 200 ''{}'' (TextValue ''[a)b]'')"
    by (simp_all add: runaway_reply_world_def four_polls_world_def sample_world_def)
  have g: "get_thread_messages runaway_reply_world (Some ''thread_1'') ?p8
       = Some (Inr (TextValue ''[a)b]''), ?p8 @ [ListMessages (Some ''thread_1'')])"
    by (simp add: get_thread_messages_def m)
  note a = one_fetch_after_the_polls [OF sample_request_facts(1-3) four_polls_facts(5)
         four_polls_facts(1-4)]
  note b = one_fetch_after_the_polls [OF sample_request_facts(1-3) c w]
  from b have "snd (slack runaway_reply_world sample_request empty_store)
           = catch_io (bind_io (get_thread_messages runaway_reply_world (Some ''thread_1''))
                 (on_messages runaway_reply_world sample_request))
               (on_exception runaway_reply_world sample_request) ?p8"
    by (simp add: sample_request_facts)
  also have "\<dots> = None"
    by (simp add: catch_io_def bind_io_def g on_messages_def message_text_def return_io_def
        send_gpt_response_def runaway_reply)
  finally have h: "snd (slack runaway_reply_world sample_request empty_store) = None" .
  from b have wt: "wait_for_run_completion runaway_reply_world (Some ''thread_1'') [CreateRun ''hi'']
       = Some (Inr ''completed'', ?p8)"
    by (simp add: sample_request_facts)
  from a r have "length (filter is_ListMessages
        (?p8 @ [ListMessages (Some ''thread_1''),
            ConversationsReplies (Some ''C1'') (Some ''17.1''),
            ChatPostMessage (Some ''C1'') (Some ''17.1'') ''hello''])) = 1"
    by blast
  with r g h wt show ?thesis by simp
qed


lemma send_posted:
  assumes "format_links text = Some ft"
    and "get_last_message w ch ts tr = Some (Inr lm, tr1)" and "lm \<noteq> Some ft"
    and "post_resp w (length (filter is_ChatPostMessage tr1)) = Posted"
  shows "send_gpt_response w ch ts text tr = Some (Inr (), tr1 @ [ChatPostMessage ch ts ft])"
  using assms by (simp add: send_gpt_response_def io_defs chat_postMessage_def)

lemma execute_posted:
  assumes c: "create_resp w = CreateReply 200 body thread_id"
    and p: "wait_for_run_completion w thread_id [CreateRun (event_text req)]
            = Some (Inr ''completed'', tr2)"
    and m: "messages_resp w = MessagesReply 200 mbody (TextValue v)"
    and f: "format_links v = Some ft"
    and l: "(replies_resp w 0 = Replies ms \<and> (ms = [] \<or> last ms \<noteq> ft))
            \<or> replies_resp w 0 = RepliesApiError lmsg lerr"
    and p0: "post_resp w 0 = Posted"
  shows "execute w req []
         = Some (Inr (StatusReply ''ok'' None),
                 tr2 @ [ListMessages thread_id,
                        ConversationsReplies (event_channel req) (event_ts req),
                        ChatPostMessage (event_channel req) (event_ts req) ft])"
proof -
  let ?ch = "event_channel req" and ?ts = "event_ts req"
  let ?t9 = "tr2 @ [ListMessages thread_id]"
  have cr: "create_thread w (event_text req) [] = Some (Inr thread_id, [CreateRun (event_text req)])"
    using c by (simp add: create_thread_def)
  have g: "get_thread_messages w thread_id tr2 = Some (Inr (TextValue v), ?t9)"
    using m by (simp add: get_thread_messages_def)
  note np = no_platform_calls_while_polling [OF p]
  from l np obtain lm where
    lk: "get_last_message w ?ch ?ts ?t9 = Some (Inr lm, ?t9 @ [ConversationsReplies ?ch ?ts])"
    and ne: "lm \<noteq> Some ft"
    by (auto simp: get_last_message_cases)
  have sd: "send_gpt_response w ?ch ?ts v ?t9
        = Some (Inr (), (?t9 @ [ConversationsReplies ?ch ?ts]) @ [ChatPostMessage ?ch ?ts ft])"
    using np p0 by (intro send_posted [OF f lk ne]) simp
  have "execute w req [] = Some (Inr (StatusReply ''ok'' None),
           (?t9 @ [ConversationsReplies ?ch ?ts]) @ [ChatPostMessage ?ch ?ts ft])"
    unfolding execute_def try_body_def
    by (simp add: io_defs cr p g message_text_def sd)
  then show ?thesis by simp
qed

lemma execute_normal_run:
  assumes c: "create_resp w = CreateReply 200 body thread_id"
    and q: "\<forall>k<n. \<exists>st. runs_resp w k = RunStatus st
                       \<and> st \<notin> set [''completed'', ''failed'', ''incomplete'']"
    and t: "runs_resp w n = RunStatus ''completed''"
    and m: "messages_resp w = MessagesReply 200 mbody (TextValue v)"
    and f: "format_links v = Some ft"
    and l: "(replies_resp w 0 = Replies ms \<and> (ms = [] \<or> last ms \<noteq> ft))
            \<or> replies_resp w 0 = RepliesApiError lmsg lerr"
    and p0: "post_resp w 0 = Posted"
  shows "execute w req []
         = Some (Inr (StatusReply ''ok'' None),
                 CreateRun (event_text req) # concat (replicate n [ListRuns thread_id, Sleep])
                 @ [ListRuns thread_id, ListMessages thread_id,
                    ConversationsReplies (event_channel req) (event_ts req),
                    ChatPostMessage (event_channel req) (event_ts req) ft])"
proof -
  have wt: "wait_for_run_completion w thread_id [CreateRun (event_text req)]
            = Some (Inr ''completed'',
                    [CreateRun (event_text req)]
                    @ concat (replicate n [ListRuns thread_id, Sleep]) @ [ListRuns thread_id])"
    using wait_returns [of n w "[CreateRun (event_text req)]" "''completed''" thread_id] q t
    by simp
  from execute_posted [OF c wt m f l p0] show ?thesis by simp
qed

lemma execute_ignores_event_id: "execute w (req\<lparr>event_id := x\<rparr>) = execute w req"
  by (simp add: execute_def try_body_def Let_def cong: if_cong)

text \<open>
  Claim C10. A payload without \<^verbatim>\<open>event_id\<close> (neither handshake nor retry) is handled
  under the key \<^verbatim>\<open>None\<close>. While \<^verbatim>\<open>None\<close> is not in the set, the handler adds it to
  the set and handles the payload exactly as it handles the same payload with a fresh
  event id; in particular, when the backend and the chat platform answer without
  failure, it creates the run, polls until the run is completed, fetches the reply,
  posts it to the thread and answers with status \<^verbatim>\<open>ok\<close>. From then on, and after
  any further requests, every payload without \<^verbatim>\<open>event_id\<close> is acknowledged as
  already processed, with no call and no change of the store.
\<close>

theorem missing_event_id_is_key_None:
  assumes "payload_type req \<noteq> Some ''url_verification''" and "\<not> truthy (retry_num req)"
    and "event_id req = None" and "None \<notin> processed_events s"
    and "payload_type req' \<noteq> Some ''url_verification''" and "\<not> truthy (retry_num req')"
    and "event_id req' = None"
  shows "fst (slack w req s) = claim w req s
       \<and> processed_events (claim w req s) = insert None (processed_events s)
       \<and> (Some e \<notin> processed_events s \<longrightarrow>
            snd (slack w req s) = snd (slack w (req\<lparr>event_id := Some e\<rparr>) s))
       \<and> (create_resp w = CreateReply 200 body thread_id
            \<and> (\<forall>k<n. \<exists>st. runs_resp w k = RunStatus st
                          \<and> st \<notin> set [''completed'', ''failed'', ''incomplete''])
            \<and> runs_resp w n = RunStatus ''completed''
            \<and> messages_resp w = MessagesReply 200 mbody (TextValue v)
            \<and> format_links v = Some ft
            \<and> ((replies_resp w 0 = Replies ms \<and> (ms = [] \<or> last ms \<noteq> ft))
                 \<or> replies_resp w 0 = RepliesApiError lmsg lerr)
            \<and> post_resp w 0 = Posted
          \<longrightarrow> snd (slack w req s)
               = Some (Inr (StatusReply ''ok'' None),
                       CreateRun (event_text req)
                       # concat (replicate n [ListRuns thread_id, Sleep])
                       @ [ListRuns thread_id, ListMessages thread_id,
                          ConversationsReplies (event_channel req) (event_ts req),
                          ChatPostMessage (event_channel req) (event_ts req) ft]))
       \<and> slack w' req' (serve later (claim w req s))
           = (serve later (claim w req s),
              Some (Inr (StatusReply ''ok'' (Some ''Event already processed'')), []))"
proof -
  have a: "slack w req s = (claim w req s, execute w req [])"
    using assms(1-4) by (simp add: slack_def before_lock_def)
  have b: "processed_events (claim w req s) = insert None (processed_events s)"
    using assms(3) by (simp add: claim_keeps)
  have i: "snd (slack w req s) = snd (slack w (req\<lparr>event_id := Some e\<rparr>) s)"
    if "Some e \<notin> processed_events s"
    using that assms(1,2) a
    by (simp add: slack_def before_lock_def execute_ignores_event_id)
  from b have "None \<in> processed_events (claim w req s)" by simp
  from serve_keeps [OF this] have "event_id req' \<in> processed_events (serve later (claim w req s))"
    using assms(7) by simp
  with assms(5,6) have d: "slack w' req' (serve later (claim w req s))
           = (serve later (claim w req s),
              Some (Inr (StatusReply ''ok'' (Some ''Event already processed'')), []))"
    by (simp add: slack_def before_lock_def)
  from a b i d execute_normal_run [of w body thread_id n mbody v ft ms lmsg lerr req]
  show ?thesis by simp
qed

theorem missing_event_id_is_key_None_witness:
  "slack sample_world (sample_request\<lparr>event_id := None\<rparr>) empty_store
     = (\<lparr>processed_events = {None}, events_file = Some {None}\<rparr>,
        Some (Inr (StatusReply ''ok'' None),
              [CreateRun ''hi'', ListRuns (Some ''thread_1''), ListMessages (Some ''thread_1''),
               ConversationsReplies (Some ''C1'') (Some ''17.1''),
               ChatPostMessage (Some ''C1'') (Some ''17.1'') ''hello'']))
   \<and> slack sample_world (sample_request\<lparr>event_id := None, event_text := ''again''\<rparr>)
        \<lparr>processed_events = {None}, events_file = Some {None}\<rparr>
     = (\<lparr>processed_events = {None}, events_file = Some {None}\<rparr>,
        Some (Inr (StatusReply ''ok'' (Some ''Event already processed'')), []))"
proof -
  let ?req = "sample_request\<lparr>event_id := None\<rparr>"
  let ?req' = "sample_request\<lparr>event_id := None, event_text := ''again''\<rparr>"
  have h: "payload_type ?req \<noteq> Some ''url_verification''" "\<not> truthy (retry_num ?req)"
    "event_id ?req = None" "None \<notin> processed_events empty_store"
    "payload_type ?req' \<noteq> Some ''url_verification''" "\<not> truthy (retry_num ?req')"
    "event_id ?req' = None"
    by (simp_all add: sample_request_def truthy_def empty_store_def)
  have cl: "claim sample_world ?req empty_store
            = \<lparr>processed_events = {None}, events_file = Some {None}\<rparr>"
    by (simp add: claim_def save_processed_events_def sample_world_def empty_store_def)
  have wd: "create_resp sample_world = CreateReply 200 ''{}'' (Some ''thread_1'')"
    "runs_resp sample_world 0 = RunStatus ''completed''"
    "messages_resp sample_world = MessagesReply 200 ''{}'' (TextValue ''hello'')"
    "replies_resp sample_world 0 = Replies []" "post_resp sample_world 0 = Posted"
    by (simp_all add: sample_world_def)
  have rq: "event_text ?req = ''hi''" "event_channel ?req = Some ''C1''"
    "event_ts ?req = Some ''17.1''"
    by (simp_all add: sample_request_def)
  from missing_event_id_is_key_None [OF h, of sample_world e "''{}''" "Some ''thread_1''" 0
         "''{}''" "''hello''" "''hello''" "[]" lmsg lerr sample_world "[]"]
  have "fst (slack sample_world ?req empty_store)
          = \<lparr>processed_events = {None}, events_file = Some {None}\<rparr>"
    and "snd (slack sample_world ?req empty_store)
          = Some (Inr (StatusReply ''ok'' None),
              [CreateRun ''hi'', ListRuns (Some ''thread_1''), ListMessages (Some ''thread_1''),
               ConversationsReplies (Some ''C1'') (Some ''17.1''),
               ChatPostMessage (Some ''C1'') (Some ''17.1'') ''hello''])"
    and "slack sample_world ?req' \<lparr>processed_events = {None}, events_file = Some {None}\<rparr>
     = (\<lparr>processed_events = {None}, events_file = Some {None}\<rparr>,
        Some (Inr (StatusReply ''ok'' (Some ''Event already processed'')), []))"
    by (simp_all add: cl wd rq format_links_hello)
  then show ?thesis by (simp add: prod_eq_iff)
qed

end
